theory Spec2Isabelle
  imports Complex_Main "HOL-Library.Char_ord" "HOL-Library.List_Lexorder"
begin

chapter \<open>The scrapers as functions\<close>

text \<open>
  The repository is a set of stand-alone Python scripts that fetch table-tennis data over
  HTTP, parse it and write JSON files. This part translates the functions and loops under
  study into HOL, one definition per source function or loop, keeping the order of the
  source's tests. The second part states and proves their properties.

  Conventions. A Python \<^verbatim>\<open>str\<close> is a \<^typ>\<open>string\<close> whose characters are read as the
  code points U+0000 to U+00FF. Python's unbounded \<^verbatim>\<open>int\<close> is \<^typ>\<open>int\<close>. An exception that
  leaves a function is the left summand of its result. The network is a parameter of every
  function that makes a request.
\<close>

section \<open>Python values and built-ins\<close>

datatype error =
  AttributeError | ValueError | TypeError | IndexError | KeyError | RequestException | HTTPError | URLError

text \<open>The scalar values a decoded JSON object can hold (floats, lists and nested objects
  are left out of row values).\<close>

datatype pyval = PNone | PBool bool | PInt int | PStr string

text \<open>A decoded JSON object (a \<^verbatim>\<open>dict\<close> with string keys): its items, every key once.\<close>

type_synonym row = "(string \<times> pyval) list"

text \<open>\<^verbatim>\<open>bool(v)\<close>, the test of \<^verbatim>\<open>if v\<close>, \<^verbatim>\<open>v or d\<close>.\<close>

fun truthy :: "pyval \<Rightarrow> bool" where
  "truthy PNone = False"
| "truthy (PBool b) = b"
| "truthy (PInt i) = (i \<noteq> 0)"
| "truthy (PStr s) = (s \<noteq> [])"

text \<open>\<^verbatim>\<open>d.get(k)\<close> and \<^verbatim>\<open>d.get(k, default)\<close>.\<close>

definition dict_get :: "row \<Rightarrow> string \<Rightarrow> pyval" where
  "dict_get d k = (case map_of d k of None \<Rightarrow> PNone | Some v \<Rightarrow> v)"

definition dict_get_default :: "row \<Rightarrow> string \<Rightarrow> pyval \<Rightarrow> pyval" where
  "dict_get_default d k dflt = (case map_of d k of None \<Rightarrow> dflt | Some v \<Rightarrow> v)"

text \<open>Character classes of \<^verbatim>\<open>str.isspace\<close>, \<^verbatim>\<open>str.isupper\<close>, \<^verbatim>\<open>str.islower\<close> and
  \<^verbatim>\<open>str.isalpha\<close> on the code points below 256.\<close>

definition py_isspace :: "char \<Rightarrow> bool" where
  "py_isspace c = (let n = (of_char c :: nat) in (9 \<le> n \<and> n \<le> 13) \<or> (28 \<le> n \<and> n \<le> 32) \<or> n = 133 \<or> n = 160)"

definition char_isupper :: "char \<Rightarrow> bool" where
  "char_isupper c = (let n = (of_char c :: nat) in
     (65 \<le> n \<and> n \<le> 90) \<or> (192 \<le> n \<and> n \<le> 214) \<or> (216 \<le> n \<and> n \<le> 222))"

definition char_islower :: "char \<Rightarrow> bool" where
  "char_islower c = (let n = (of_char c :: nat) in
     (97 \<le> n \<and> n \<le> 122) \<or> n = 170 \<or> n = 181 \<or> n = 186 \<or> (223 \<le> n \<and> n \<le> 246) \<or> (248 \<le> n \<and> n \<le> 255))"

definition char_isalpha :: "char \<Rightarrow> bool" where
  "char_isalpha c = (char_isupper c \<or> char_islower c)"

text \<open>\<^verbatim>\<open>s.isupper()\<close>: no lower-case character and at least one upper-case one.\<close>

definition py_isupper :: "string \<Rightarrow> bool" where
  "py_isupper s = ((\<forall>c \<in> set s. \<not> char_islower c) \<and> (\<exists>c \<in> set s. char_isupper c))"

text \<open>\<^verbatim>\<open>s.strip()\<close>.\<close>

definition py_strip :: "string \<Rightarrow> string" where
  "py_strip s = rev (dropWhile py_isspace (rev (dropWhile py_isspace s)))"

text \<open>\<^verbatim>\<open>s.split()\<close>: the maximal runs of characters that are not white space. The first
  argument is the token being read.\<close>

fun split_go :: "string \<Rightarrow> string \<Rightarrow> string list" where
  "split_go cur [] = (if cur = [] then [] else [cur])"
| "split_go cur (c # cs) =
     (if py_isspace c then (if cur = [] then split_go [] cs else cur # split_go [] cs)
      else split_go (cur @ [c]) cs)"

definition py_split :: "string \<Rightarrow> string list" where
  "py_split s = split_go [] s"

text \<open>\<^verbatim>\<open>s.split(d)\<close> for a one-character separator: never empty, empty pieces kept.\<close>

fun split_on_go :: "char \<Rightarrow> string \<Rightarrow> string \<Rightarrow> string list" where
  "split_on_go d cur [] = [cur]"
| "split_on_go d cur (c # cs) =
     (if c = d then cur # split_on_go d [] cs else split_on_go d (cur @ [c]) cs)"

definition py_split_on :: "char \<Rightarrow> string \<Rightarrow> string list" where
  "py_split_on d s = split_on_go d [] s"

text \<open>\<^verbatim>\<open>s.split(d, 1)\<close> when \<^verbatim>\<open>d in s\<close>: the text before the first separator and the text
  after it.\<close>

definition py_split_once :: "char \<Rightarrow> string \<Rightarrow> string \<times> string" where
  "py_split_once d s = (takeWhile (\<lambda>c. c \<noteq> d) s, tl (dropWhile (\<lambda>c. c \<noteq> d) s))"

text \<open>\<^verbatim>\<open>" ".join(parts)\<close>.\<close>

fun py_join :: "string list \<Rightarrow> string" where
  "py_join [] = []"
| "py_join [p] = p"
| "py_join (p # q # ps) = p @ CHR '' '' # py_join (q # ps)"

text \<open>\<^verbatim>\<open>int(s)\<close> on a string: white space around the literal is dropped (the characters
  U+001C to U+001F are white space for \<^verbatim>\<open>strip\<close> and \<^verbatim>\<open>split\<close> but not here), one sign
  may come first, then decimal digits with single underscores between digits. \<^const>\<open>None\<close>
  is the \<^verbatim>\<open>ValueError\<close>. The limit on the number of digits of recent interpreters is not
  modelled.\<close>

definition int_isspace :: "char \<Rightarrow> bool" where
  "int_isspace c = (let n = (of_char c :: nat) in (9 \<le> n \<and> n \<le> 13) \<or> n = 32 \<or> n = 133 \<or> n = 160)"

definition is_digit :: "char \<Rightarrow> bool" where
  "is_digit c = (let n = (of_char c :: nat) in 48 \<le> n \<and> n \<le> 57)"

definition digit_val :: "char \<Rightarrow> nat" where
  "digit_val c = of_char c - 48"

fun digits_go :: "nat \<Rightarrow> bool \<Rightarrow> string \<Rightarrow> nat option" where
  "digits_go acc prev [] = (if prev then Some acc else None)"
| "digits_go acc prev (c # cs) =
     (if is_digit c then digits_go (10 * acc + digit_val c) True cs
      else if c = CHR ''_'' \<and> prev then digits_go acc False cs
      else None)"

definition py_int :: "string \<Rightarrow> int option" where
  "py_int s =
     (case rev (dropWhile int_isspace (rev (dropWhile int_isspace s))) of
        [] \<Rightarrow> None
      | c # cs \<Rightarrow>
          if c = CHR ''-'' then map_option (\<lambda>n. - int n) (digits_go 0 False cs)
          else if c = CHR ''+'' then map_option int (digits_go 0 False cs)
          else map_option int (digits_go 0 False (c # cs)))"

text \<open>\<^verbatim>\<open>str(v)\<close>.\<close>

function str_of_nat :: "nat \<Rightarrow> string" where
  "str_of_nat n =
     (if n < 10 then [char_of (48 + n)] else str_of_nat (n div 10) @ [char_of (48 + n mod 10)])"
  by pat_completeness auto
termination
  by (relation "measure id") auto

declare str_of_nat.simps [simp del]

definition str_of_int :: "int \<Rightarrow> string" where
  "str_of_int i = (if i < 0 then CHR ''-'' # str_of_nat (nat (- i)) else str_of_nat (nat i))"

fun py_str :: "pyval \<Rightarrow> string" where
  "py_str PNone = ''None''"
| "py_str (PBool b) = (if b then ''True'' else ''False'')"
| "py_str (PInt i) = str_of_int i"
| "py_str (PStr s) = s"

text \<open>\<^verbatim>\<open>x or None\<close> on a string.\<close>

definition or_none :: "string \<Rightarrow> string option" where
  "or_none s = (if s = [] then None else Some s)"

text \<open>\<^verbatim>\<open>(v or "").strip()\<close>: a true value that is not a string has no \<^verbatim>\<open>strip\<close>.\<close>

fun or_empty_strip :: "pyval \<Rightarrow> error + string" where
  "or_empty_strip (PStr s) = Inr (py_strip s)"
| "or_empty_strip v = (if truthy v then Inl AttributeError else Inr [])"

section \<open>Game scores\<close>

subsection \<open>\<^verbatim>\<open>fabrik_match_scraper.py\<close> and \<^verbatim>\<open>comprehensive_collector.py\<close>\<close>

record score_game =
  game_number :: nat
  player_score :: int
  opponent_score :: int

text \<open>One turn of the loop of \<^verbatim>\<open>parse_game_scores\<close> on the token \<open>game_str\<close>; \<open>num\<close> is the
  value stored under \<^verbatim>\<open>"game_number"\<close>. \<^const>\<open>None\<close>: nothing is appended.\<close>

definition parse_score_token :: "nat \<Rightarrow> string \<Rightarrow> score_game option" where
  "parse_score_token num game_str =
     (if game_str = [] then None
      else if CHR '':'' \<in> set game_str then
        (case py_split_on CHR '':'' game_str of
           [p0, p1] \<Rightarrow>
             (case py_int (py_strip p0) of
                None \<Rightarrow> None
              | Some ps \<Rightarrow>
                  (case py_int (py_strip p1) of
                     None \<Rightarrow> None
                   | Some os \<Rightarrow> Some \<lparr>game_number = num, player_score = ps, opponent_score = os\<rparr>))
         | _ \<Rightarrow> None)
      else None)"

text \<open>\<^verbatim>\<open>FabrikMatchScraper.parse_game_scores\<close>: \<^verbatim>\<open>for i, game_str in enumerate(game_strs, 1)\<close>,
  storing \<^verbatim>\<open>"game_number": i\<close>.\<close>

fun fms_loop :: "nat \<Rightarrow> string list \<Rightarrow> score_game list \<Rightarrow> score_game list" where
  "fms_loop i [] games = games"
| "fms_loop i (game_str # rest) games =
     fms_loop (Suc i) rest
       (case parse_score_token i game_str of None \<Rightarrow> games | Some g \<Rightarrow> games @ [g])"

definition fms_parse_game_scores :: "string \<Rightarrow> score_game list" where
  "fms_parse_game_scores games_string = fms_loop 1 (py_split (py_strip games_string)) []"

text \<open>\<^verbatim>\<open>FabrikAPIClient.parse_game_scores\<close>: the same loop, also enumerating from 1, but
  storing \<^verbatim>\<open>"game_number": i + 1\<close>.\<close>

fun fac_loop :: "nat \<Rightarrow> string list \<Rightarrow> score_game list \<Rightarrow> score_game list" where
  "fac_loop i [] games = games"
| "fac_loop i (game_str # rest) games =
     fac_loop (Suc i) rest
       (case parse_score_token (i + 1) game_str of None \<Rightarrow> games | Some g \<Rightarrow> games @ [g])"

definition fac_parse_game_scores :: "string \<Rightarrow> score_game list" where
  "fac_parse_game_scores games_string = fac_loop 1 (py_split (py_strip games_string)) []"

subsection \<open>\<^verbatim>\<open>master_scrape.py\<close>\<close>

text \<open>\<^verbatim>\<open>safe_int\<close>: \<^verbatim>\<open>int(str(value))\<close>, with \<^verbatim>\<open>None\<close> for \<^verbatim>\<open>None\<close> and for any exception.\<close>

definition safe_int :: "pyval \<Rightarrow> int option" where
  "safe_int v = (case v of PNone \<Rightarrow> None | _ \<Rightarrow> py_int (py_str v))"

text \<open>A game of \<^verbatim>\<open>parse_games\<close> is the dictionary
  \<^verbatim>\<open>{"game_number": idx, "a_points": a, "x_points": b}\<close>.\<close>

definition game_dict :: "nat \<Rightarrow> int \<Rightarrow> int \<Rightarrow> row" where
  "game_dict idx a b =
     [(''game_number'', PInt (int idx)), (''a_points'', PInt a), (''x_points'', PInt b)]"

definition parse_games_token :: "nat \<Rightarrow> string \<Rightarrow> row option" where
  "parse_games_token idx token =
     (if CHR '':'' \<notin> set token then None
      else
        (case py_split_once CHR '':'' token of
           (left, right) \<Rightarrow>
             (case safe_int (PStr (py_strip left)) of
                None \<Rightarrow> None
              | Some a \<Rightarrow>
                  (case safe_int (PStr (py_strip right)) of
                     None \<Rightarrow> None
                   | Some b \<Rightarrow> Some (game_dict idx a b)))))"

fun parse_games_loop :: "nat \<Rightarrow> string list \<Rightarrow> row list \<Rightarrow> row list" where
  "parse_games_loop idx [] games = games"
| "parse_games_loop idx (token # rest) games =
     parse_games_loop (Suc idx) rest
       (case parse_games_token idx token of None \<Rightarrow> games | Some g \<Rightarrow> games @ [g])"

text \<open>\<^verbatim>\<open>parse_games\<close>, starting with \<^verbatim>\<open>games_raw = (games_raw or "").strip()\<close>.\<close>

definition parse_games :: "pyval \<Rightarrow> error + row list" where
  "parse_games games_raw =
     (case or_empty_strip games_raw of
        Inl e \<Rightarrow> Inl e
      | Inr s \<Rightarrow> Inr (if s = [] then [] else parse_games_loop 1 (py_split s) []))"

section \<open>Names\<close>

text \<open>\<^verbatim>\<open>ComprehensiveDataCollector.parse_player_name\<close>, returning
  \<^verbatim>\<open>(first_name, last_name)\<close>. Both branches for more than two words return the same
  pair.\<close>

definition parse_player_name :: "string \<Rightarrow> string option \<times> string option" where
  "parse_player_name full_name =
     (if full_name = [] then (None, None)
      else
        (case py_split (py_strip full_name) of
           [] \<Rightarrow> (Some full_name, None)
         | [p0] \<Rightarrow> (Some p0, None)
         | [p0, p1] \<Rightarrow> (Some p1, Some p0)
         | p0 # p1 # p2 # ps \<Rightarrow>
             (if list_all py_isupper (p0 # p1 # p2 # ps)
              then (Some (py_join (p1 # p2 # ps)), Some p0)
              else (Some (py_join (p1 # p2 # ps)), Some p0))))"

text \<open>\<^verbatim>\<open>master_scrape.normalize_name\<close>, returning \<^verbatim>\<open>(first_name, last_name, full_name)\<close>.
  \<^verbatim>\<open>parts[-1]\<close> of an empty list would raise.\<close>

definition normalize_name ::
  "string \<Rightarrow> error + (string option \<times> string option \<times> string option)" where
  "normalize_name name_arg =
     (let full_name = py_strip name_arg in
      if full_name = [] then Inr (None, None, None)
      else
        (let parts = filter (\<lambda>p. p \<noteq> []) (py_split full_name) in
         if length parts = 1 then Inr (None, Some (hd parts), Some full_name)
         else
           (case filter (\<lambda>p. py_isupper p \<and> (\<exists>c \<in> set p. char_isalpha c)) parts of
              last_name # _ \<Rightarrow>
                (let first_parts = filter (\<lambda>p. p \<noteq> last_name) parts;
                     first = (if first_parts \<noteq> [] then or_none (py_join first_parts) else None)
                 in Inr (first, or_none last_name, Some full_name))
            | [] \<Rightarrow>
                (case rev parts of
                   [] \<Rightarrow> Inl IndexError
                 | p # _ \<Rightarrow> Inr (or_none (py_join (butlast parts)), or_none p, Some full_name)))))"

section \<open>Matches of \<^verbatim>\<open>master_scrape.py\<close>\<close>

text \<open>\<^verbatim>\<open>compute_set_score\<close>: the loop carries \<^verbatim>\<open>(a_sets, x_sets)\<close>.\<close>

fun compute_set_score_loop :: "row list \<Rightarrow> nat \<times> nat \<Rightarrow> nat \<times> nat" where
  "compute_set_score_loop [] (a_sets, x_sets) = (a_sets, x_sets)"
| "compute_set_score_loop (g # gs) (a_sets, x_sets) =
     (case (safe_int (dict_get g ''a_points''), safe_int (dict_get g ''x_points'')) of
        (Some a, Some x) \<Rightarrow>
          if a > x then compute_set_score_loop gs (a_sets + 1, x_sets)
          else if x > a then compute_set_score_loop gs (a_sets, x_sets + 1)
          else compute_set_score_loop gs (a_sets, x_sets)
      | _ \<Rightarrow> compute_set_score_loop gs (a_sets, x_sets))"

definition compute_set_score :: "row list \<Rightarrow> nat \<times> nat" where
  "compute_set_score games = compute_set_score_loop games (0, 0)"

record player_ref =
  ittf_id :: "string option"
  name :: "string option"
  association :: "string option"

record match_dict =
  m_match_id :: string
  m_year :: "string option"
  m_tournament :: pyval
  m_event :: pyval
  m_stage :: pyval
  m_round :: pyval
  m_walkover :: bool
  m_winner_raw :: "int option"
  m_winner_inferred :: "string option"
  m_final_sets :: "nat \<times> nat"
  m_games :: "row list"
  m_player_a :: player_ref
  m_player_x :: player_ref

text \<open>\<^verbatim>\<open>a or b\<close> on values, and the truth of an optional string.\<close>

definition py_or :: "pyval \<Rightarrow> pyval \<Rightarrow> pyval" where
  "py_or a b = (if truthy a then a else b)"

definition opt_truthy :: "string option \<Rightarrow> bool" where
  "opt_truthy s = (case s of None \<Rightarrow> False | Some t \<Rightarrow> t \<noteq> [])"

definition bind_err :: "'e + 'a \<Rightarrow> ('a \<Rightarrow> 'e + 'b) \<Rightarrow> 'e + 'b" where
  "bind_err r f = (case r of Inl e \<Rightarrow> Inl e | Inr x \<Rightarrow> f x)"

text \<open>\<^verbatim>\<open>row_to_match\<close>. The constant \<^verbatim>\<open>"source"\<close> entry is left out.\<close>

definition row_to_match :: "row \<Rightarrow> error + match_dict" where
  "row_to_match row =
     (let match_id = py_strip (py_str (dict_get_default row ''vw_matches___id'' (PStr [])));
          a_id = or_none (py_strip (py_str (dict_get_default row ''vw_matches___player_a_id'' (PStr []))));
          x_id_raw = dict_get row ''vw_matches___player_x_id'';
          x_id = (if truthy x_id_raw then Some (py_strip (py_str x_id_raw)) else None)
      in
      bind_err (or_empty_strip (dict_get row ''vw_matches___name_a'')) (\<lambda>a_name.
      bind_err (or_empty_strip (dict_get row ''vw_matches___name_x'')) (\<lambda>x_name.
      bind_err (or_empty_strip (dict_get row ''vw_matches___assoc_a'')) (\<lambda>a_assoc.
      bind_err (or_empty_strip (dict_get row ''vw_matches___assoc_x'')) (\<lambda>x_assoc.
      bind_err (parse_games (py_or (dict_get row ''vw_matches___games_raw'') (PStr []))) (\<lambda>games.
        (let (a_sets, x_sets) = compute_set_score games;
             walkover = truthy (dict_get_default row ''vw_matches___wo'' (PInt 0));
             winner_id = safe_int (dict_get row ''vw_matches___winner'');
             inferred_winner =
               (if a_sets \<noteq> x_sets \<and> (opt_truthy a_id \<or> opt_truthy x_id)
                then Some (if a_sets > x_sets then ''A'' else ''X'')
                else None);
             year = or_none (py_strip (py_str
                      (py_or (dict_get row ''vw_matches___yr_raw'')
                         (py_or (dict_get row ''vw_matches___yr'') (PStr [])))))
         in Inr \<lparr>m_match_id = match_id,
                 m_year = year,
                 m_tournament = dict_get row ''vw_matches___tournament_id'',
                 m_event = dict_get row ''vw_matches___event'',
                 m_stage = dict_get row ''vw_matches___stage'',
                 m_round = dict_get row ''vw_matches___round'',
                 m_walkover = walkover,
                 m_winner_raw = winner_id,
                 m_winner_inferred = inferred_winner,
                 m_final_sets = (a_sets, x_sets),
                 m_games = games,
                 m_player_a = \<lparr>ittf_id = a_id, name = or_none a_name, association = or_none a_assoc\<rparr>,
                 m_player_x = \<lparr>ittf_id = x_id, name = or_none x_name, association = or_none x_assoc\<rparr>\<rparr>)))))))"

section \<open>Gender from an event code\<close>

text \<open>\<^verbatim>\<open>WTTAPIClient.extract_gender_from_event_code\<close>: \<^verbatim>\<open>gender_map.get(event_code)\<close>.\<close>

definition gender_map :: "(string \<times> string) list" where
  "gender_map =
     [(''MS'', ''M''), (''WS'', ''W''), (''MDI'', ''M''), (''WDI'', ''W''),
      (''XD'', ''mixed''), (''XDI'', ''mixed'')]"

definition extract_gender_from_event_code :: "string \<Rightarrow> string option" where
  "extract_gender_from_event_code event_code = map_of gender_map event_code"

text \<open>\<^verbatim>\<open>s.startswith(p)\<close>.\<close>

definition py_startswith :: "string \<Rightarrow> string \<Rightarrow> bool" where
  "py_startswith s p = (take (length p) s = p)"

text \<open>\<^verbatim>\<open>ITTFComprehensiveScraper.determine_player_gender\<close>.\<close>

definition determine_player_gender :: "string \<Rightarrow> string \<Rightarrow> string" where
  "determine_player_gender player_id event_code =
     (if py_startswith event_code ''MS'' \<or> py_startswith event_code ''MD'' then ''male''
      else if py_startswith event_code ''WS'' \<or> py_startswith event_code ''WD'' then ''female''
      else if py_startswith event_code ''XD'' then ''mixed''
      else ''unknown'')"

section \<open>The Fabrik match list\<close>

text \<open>
  A request for a page of the list carries the year, the page size and, in
  \<^verbatim>\<open>master_scrape.py\<close> only, the offset \<^verbatim>\<open>limitstart<listid>\<close>. The server is any function
  from the number of requests it has answered so far and the request to a reply: a
  failure (no connection, an error status, a body that is not JSON), JSON that is not a
  list, or a JSON list of items. An item is a row, a nested list or something else.
\<close>

record request =
  req_year :: int
  req_limit :: int
  req_offset :: "int option"

datatype item = Dict row | Sublist "item list" | Other

datatype reply = Failure error | Not_a_list | Json_list "item list"

type_synonym server = "nat \<Rightarrow> request \<Rightarrow> reply"

text \<open>\<^verbatim>\<open>match_data.get\<close>: only a \<^verbatim>\<open>dict\<close> has it.\<close>

definition item_row :: "item \<Rightarrow> error + row" where
  "item_row it = (case it of Dict r \<Rightarrow> Inr r | _ \<Rightarrow> Inl AttributeError)"

subsection \<open>\<^verbatim>\<open>fabrik_match_scraper.py\<close> and \<^verbatim>\<open>comprehensive_collector.py\<close>\<close>

text \<open>\<^verbatim>\<open>fetch_matches(year, limit=limit)\<close> of both classes; \<open>reqs\<close> holds the requests made so
  far. Any exception gives the empty list.\<close>

definition fetch_matches :: "server \<Rightarrow> request list \<Rightarrow> int \<Rightarrow> int \<Rightarrow> item list \<times> request list" where
  "fetch_matches srv reqs yr limit =
     (let req = \<lparr>req_year = yr, req_limit = limit, req_offset = None\<rparr> in
      (case srv (length reqs) req of Json_list data \<Rightarrow> data | _ \<Rightarrow> [], reqs @ [req]))"

text \<open>The class \<^verbatim>\<open>Match\<close> (the time stamp \<^verbatim>\<open>scraped_at\<close> of one of its two copies is
  left out).\<close>

record fabrik_match =
  match_id :: string
  player_id :: string
  player_name :: pyval
  opponent_id :: "string option"
  opponent_name :: pyval
  player_association :: pyval
  opponent_association :: pyval
  tournament :: pyval
  event :: pyval
  stage :: pyval
  round_num :: pyval
  year :: string
  date :: pyval
  games :: "score_game list"
  winner_id :: "int option"
  walkover :: bool

text \<open>\<^verbatim>\<open>int(v)\<close> on a value.\<close>

fun int_of_val :: "pyval \<Rightarrow> error + int" where
  "int_of_val (PStr s) = (case py_int s of None \<Rightarrow> Inl ValueError | Some i \<Rightarrow> Inr i)"
| "int_of_val (PInt i) = Inr i"
| "int_of_val (PBool b) = Inr (if b then 1 else 0)"
| "int_of_val PNone = Inl TypeError"

text \<open>\<^verbatim>\<open>parse_game_scores(v)\<close> on a value: \<^verbatim>\<open>strip\<close> exists on strings only.\<close>

definition parse_scores_val :: "(string \<Rightarrow> score_game list) \<Rightarrow> pyval \<Rightarrow> error + score_game list" where
  "parse_scores_val parse v = (case v of PStr s \<Rightarrow> Inr (parse s) | _ \<Rightarrow> Inl AttributeError)"

text \<open>The call \<^verbatim>\<open>Match(match_id=..., ...)\<close> in the loops of \<^verbatim>\<open>scrape_year\<close> and
  \<^verbatim>\<open>scrape_matches_by_year\<close>, for the score parser of the class.\<close>

definition make_match :: "(string \<Rightarrow> score_game list) \<Rightarrow> item \<Rightarrow> error + fabrik_match" where
  "make_match parse match_data =
     bind_err (item_row match_data) (\<lambda>d.
     bind_err (parse_scores_val parse (dict_get_default d ''vw_matches___games_raw'' (PStr []))) (\<lambda>gs.
     bind_err (if truthy (dict_get d ''vw_matches___winner'')
               then map_sum id Some (int_of_val (dict_get_default d ''vw_matches___winner'' (PInt 0)))
               else Inr None) (\<lambda>w.
       Inr \<lparr>match_id = py_str (dict_get_default d ''vw_matches___id'' (PStr [])),
            player_id = py_str (dict_get_default d ''vw_matches___player_a_id'' (PStr [])),
            player_name = dict_get_default d ''vw_matches___name_a'' (PStr []),
            opponent_id =
              (if truthy (dict_get d ''vw_matches___player_x_id'')
               then Some (py_str (dict_get_default d ''vw_matches___player_x_id'' (PStr [])))
               else None),
            opponent_name = dict_get_default d ''vw_matches___name_x'' (PStr []),
            player_association = dict_get_default d ''vw_matches___assoc_a'' (PStr []),
            opponent_association = dict_get_default d ''vw_matches___assoc_x'' (PStr []),
            tournament = dict_get d ''vw_matches___tournament_id'',
            event = dict_get d ''vw_matches___event'',
            stage = dict_get d ''vw_matches___stage'',
            round_num = dict_get d ''vw_matches___round'',
            year = py_str (dict_get_default d ''vw_matches___yr_raw'' (PStr [])),
            date = PNone,
            games = gs,
            winner_id = w,
            walkover = truthy (dict_get_default d ''vw_matches___wo'' (PInt 0))\<rparr>)))"

text \<open>\<^verbatim>\<open>for match_data in matches: ... all_matches.append(match)\<close>.\<close>

fun convert_page :: "(string \<Rightarrow> score_game list) \<Rightarrow> item list \<Rightarrow> error + fabrik_match list" where
  "convert_page parse [] = Inr []"
| "convert_page parse (d # ds) =
     (case make_match parse d of
        Inl e \<Rightarrow> Inl e
      | Inr m \<Rightarrow> (case convert_page parse ds of Inl e \<Rightarrow> Inl e | Inr ms \<Rightarrow> Inr (m # ms)))"

text \<open>The loop \<^verbatim>\<open>while len(all_matches) < max_matches\<close> of \<^verbatim>\<open>scrape_year\<close> and of
  \<^verbatim>\<open>scrape_matches_by_year\<close>. The variable \<^verbatim>\<open>offset\<close> is set to 0 before the loop and never
  read. The result is the list returned and the requests made.\<close>

function scrape_loop ::
  "(string \<Rightarrow> score_game list) \<Rightarrow> server \<Rightarrow> int \<Rightarrow> int \<Rightarrow> request list \<Rightarrow> fabrik_match list \<Rightarrow>
     error + (fabrik_match list \<times> request list)" where
  "scrape_loop parse srv yr max_matches reqs all_matches =
     (if int (length all_matches) < max_matches then
        (case fetch_matches srv reqs yr 100 of
           ([], reqs') \<Rightarrow> Inr (all_matches, reqs')
         | (d # ds, reqs') \<Rightarrow>
             (case convert_page parse (d # ds) of
                Inl e \<Rightarrow> Inl e
              | Inr new \<Rightarrow> scrape_loop parse srv yr max_matches reqs' (all_matches @ new)))
      else Inr (all_matches, reqs))"
  by pat_completeness auto
termination
  by (relation "measure (\<lambda>(parse, srv, yr, max_matches, reqs, all_matches).
                           nat (max_matches - int (length all_matches)))")
    (auto split: sum.splits)

declare scrape_loop.simps [simp del]

text \<open>\<^verbatim>\<open>FabrikMatchScraper.scrape_year\<close>.\<close>

definition scrape_year :: "server \<Rightarrow> request list \<Rightarrow> int \<Rightarrow> int \<Rightarrow> error + (fabrik_match list \<times> request list)" where
  "scrape_year srv reqs yr max_matches = scrape_loop fms_parse_game_scores srv yr max_matches reqs []"

text \<open>\<^verbatim>\<open>ComprehensiveDataCollector.scrape_matches_by_year\<close>.\<close>

definition scrape_matches_by_year :: "server \<Rightarrow> request list \<Rightarrow> int \<Rightarrow> int \<Rightarrow> error + (fabrik_match list \<times> request list)" where
  "scrape_matches_by_year srv reqs yr max_matches = scrape_loop fac_parse_game_scores srv yr max_matches reqs []"

text \<open>\<^verbatim>\<open>FabrikMatchScraper.extract_player_ids\<close>: a dictionary in insertion order.\<close>

fun extract_player_ids_loop :: "fabrik_match list \<Rightarrow> (string \<times> pyval) list \<Rightarrow> (string \<times> pyval) list" where
  "extract_player_ids_loop [] players = players"
| "extract_player_ids_loop (m # ms) players =
     (let players1 =
            (if player_id m \<notin> fst ` set players then players @ [(player_id m, player_name m)]
             else players);
          players2 =
            (case opponent_id m of
               None \<Rightarrow> players1
             | Some oid \<Rightarrow>
                 if oid \<noteq> [] \<and> oid \<notin> fst ` set players1 then players1 @ [(oid, opponent_name m)]
                 else players1)
      in extract_player_ids_loop ms players2)"

definition extract_player_ids :: "fabrik_match list \<Rightarrow> (string \<times> pyval) list" where
  "extract_player_ids matches = extract_player_ids_loop matches []"

subsection \<open>Player discovery in \<^verbatim>\<open>comprehensive_collector.py\<close>\<close>

text \<open>\<^verbatim>\<open>getattr(match, a)\<close> on an instance of \<^verbatim>\<open>Match\<close>: the attributes set by
  \<^verbatim>\<open>__init__\<close> and the method \<^verbatim>\<open>to_dict\<close>. (The special attributes every object has,
  whose names start with two underscores, are left out.)\<close>

datatype attr_value = Val pyval | Games "score_game list" | Method

definition opt_val :: "string option \<Rightarrow> pyval" where
  "opt_val s = (case s of None \<Rightarrow> PNone | Some t \<Rightarrow> PStr t)"

definition match_getattr :: "fabrik_match \<Rightarrow> string \<Rightarrow> error + attr_value" where
  "match_getattr m a =
     (if a = ''match_id'' then Inr (Val (PStr (match_id m)))
      else if a = ''player_id'' then Inr (Val (PStr (player_id m)))
      else if a = ''player_name'' then Inr (Val (player_name m))
      else if a = ''opponent_id'' then Inr (Val (opt_val (opponent_id m)))
      else if a = ''opponent_name'' then Inr (Val (opponent_name m))
      else if a = ''player_association'' then Inr (Val (player_association m))
      else if a = ''opponent_association'' then Inr (Val (opponent_association m))
      else if a = ''tournament'' then Inr (Val (tournament m))
      else if a = ''event'' then Inr (Val (event m))
      else if a = ''stage'' then Inr (Val (stage m))
      else if a = ''round_num'' then Inr (Val (round_num m))
      else if a = ''date'' then Inr (Val (date m))
      else if a = ''year'' then Inr (Val (PStr (year m)))
      else if a = ''games'' then Inr (Games (games m))
      else if a = ''winner_id'' then Inr (Val (case winner_id m of None \<Rightarrow> PNone | Some i \<Rightarrow> PInt i))
      else if a = ''walkover'' then Inr (Val (PBool (walkover m)))
      else if a = ''to_dict'' then Inr Method
      else Inl AttributeError)"

text \<open>The truth of an attribute value (a method is true, a list is true when not empty).\<close>

fun attr_truthy :: "attr_value \<Rightarrow> bool" where
  "attr_truthy (Val v) = truthy v"
| "attr_truthy (Games gs) = (gs \<noteq> [])"
| "attr_truthy Method = True"

text \<open>\<^verbatim>\<open>str(player_id) not in discovered_ids\<close>; the text of a list or of a method is taken
  not to be an identifier.\<close>

fun attr_unseen :: "attr_value \<Rightarrow> string set \<Rightarrow> bool" where
  "attr_unseen (Val v) ids = (py_str v \<notin> ids)"
| "attr_unseen (Games gs) ids = True"
| "attr_unseen Method ids = True"

text \<open>\<^verbatim>\<open>self.parse_player_name(player_name)\<close> on an attribute value: a false value gives
  \<^verbatim>\<open>(None, None)\<close>, a true value that is not a string has no \<^verbatim>\<open>strip\<close>.\<close>

definition parse_player_name_attr :: "attr_value \<Rightarrow> error + (string option \<times> string option)" where
  "parse_player_name_attr a =
     (if \<not> attr_truthy a then Inr (None, None)
      else (case a of Val (PStr s) \<Rightarrow> Inr (parse_player_name s) | _ \<Rightarrow> Inl AttributeError))"

text \<open>The body of \<^verbatim>\<open>for player_field in ["player_a", "player_x", "player_y"]\<close> in
  \<^verbatim>\<open>discover_players_from_matches\<close>. After the two \<^verbatim>\<open>getattr\<close> calls, a new identifier
  leads to \<^verbatim>\<open>parse_player_name\<close> and then to \<^verbatim>\<open>Player(..., scraped_at=...)\<close>, a keyword that
  \<^verbatim>\<open>Player.__init__\<close> does not take: a \<^verbatim>\<open>TypeError\<close>. The state is the set
  \<^verbatim>\<open>discovered_ids\<close>, which therefore never grows.\<close>

definition discover_field :: "fabrik_match \<Rightarrow> string \<Rightarrow> string set \<Rightarrow> error + string set" where
  "discover_field m player_field discovered_ids =
     bind_err (match_getattr m (player_field @ ''_id'')) (\<lambda>pid.
     bind_err (match_getattr m (player_field @ ''_name'')) (\<lambda>pname.
       if attr_truthy pid \<and> attr_unseen pid discovered_ids
       then bind_err (parse_player_name_attr pname) (\<lambda>names. Inl TypeError)
       else Inr discovered_ids))"

fun discover_fields :: "fabrik_match \<Rightarrow> string list \<Rightarrow> string set \<Rightarrow> error + string set" where
  "discover_fields m [] ids = Inr ids"
| "discover_fields m (f # fs) ids =
     (case discover_field m f ids of Inl e \<Rightarrow> Inl e | Inr ids' \<Rightarrow> discover_fields m fs ids')"

fun discover_matches :: "fabrik_match list \<Rightarrow> string set \<Rightarrow> error + string set" where
  "discover_matches [] ids = Inr ids"
| "discover_matches (m # ms) ids =
     (case discover_fields m [''player_a'', ''player_x'', ''player_y''] ids of
        Inl e \<Rightarrow> Inl e
      | Inr ids' \<Rightarrow> discover_matches ms ids')"

text \<open>\<^verbatim>\<open>for year in years\<close> of \<^verbatim>\<open>discover_players_from_matches\<close>.\<close>

fun discover_years ::
  "server \<Rightarrow> request list \<Rightarrow> int list \<Rightarrow> string set \<Rightarrow> error + (string set \<times> request list)" where
  "discover_years srv reqs [] ids = Inr (ids, reqs)"
| "discover_years srv reqs (yr # yrs) ids =
     (case scrape_matches_by_year srv reqs yr 200 of
        Inl e \<Rightarrow> Inl e
      | Inr (matches, reqs') \<Rightarrow>
          (case discover_matches matches ids of
             Inl e \<Rightarrow> Inl e
           | Inr ids' \<Rightarrow> discover_years srv reqs' yrs ids'))"


subsection \<open>\<^verbatim>\<open>master_scrape.py\<close>: pages\<close>

text \<open>The fields of \<^verbatim>\<open>FabrikConfig\<close> that the loops read.\<close>

record fabrik_config =
  list_id :: string
  page_size :: int
  max_pages_per_year :: int

text \<open>\<^verbatim>\<open>fetch_fabrik_page\<close>: \<^verbatim>\<open>raise_for_status\<close> and \<^verbatim>\<open>resp.json()\<close> are not guarded, so a
  failure leaves the function as an exception.\<close>

definition fetch_fabrik_page ::
  "server \<Rightarrow> request list \<Rightarrow> fabrik_config \<Rightarrow> int \<Rightarrow> int \<Rightarrow> error + (item list \<times> request list)" where
  "fetch_fabrik_page srv reqs cfg yr offset =
     (let req = \<lparr>req_year = yr, req_limit = page_size cfg, req_offset = Some offset\<rparr> in
      case srv (length reqs) req of
        Failure e \<Rightarrow> Inl e
      | Not_a_list \<Rightarrow> Inr ([], reqs @ [req])
      | Json_list data \<Rightarrow>
          Inr (case data of [Sublist inner] \<Rightarrow> inner | _ \<Rightarrow> data, reqs @ [req]))"

text \<open>\<^verbatim>\<open>for row in rows\<close> of \<^verbatim>\<open>iter_fabrik_matches\<close>, carrying \<^verbatim>\<open>seen_ids\<close>,
  \<^verbatim>\<open>new_count\<close> and the rows yielded so far.\<close>

fun page_rows ::
  "item list \<Rightarrow> string list \<Rightarrow> nat \<Rightarrow> row list \<Rightarrow> error + (string list \<times> nat \<times> row list)" where
  "page_rows [] seen_ids new_count out = Inr (seen_ids, new_count, out)"
| "page_rows (it # its) seen_ids new_count out =
     (case item_row it of
        Inl e \<Rightarrow> Inl e
      | Inr row \<Rightarrow>
          (let match_id = py_strip (py_str (dict_get_default row ''vw_matches___id'' (PStr []))) in
           if match_id = [] then page_rows its seen_ids new_count out
           else if match_id \<in> set seen_ids then page_rows its seen_ids new_count out
           else page_rows its (seen_ids @ [match_id]) (new_count + 1) (out @ [row])))"

text \<open>\<^verbatim>\<open>for page in range(cfg.max_pages_per_year)\<close>; the first argument counts the pages
  left, the state is \<^verbatim>\<open>(seen_ids, offset, stagnant_pages)\<close> with the rows yielded and the
  requests made. The generator is modelled by the list of the rows it yields.\<close>

fun iter_pages ::
  "server \<Rightarrow> fabrik_config \<Rightarrow> int \<Rightarrow> nat \<Rightarrow> string list \<Rightarrow> int \<Rightarrow> nat \<Rightarrow> row list \<Rightarrow> request list \<Rightarrow>
     error + (row list \<times> request list)" where
  "iter_pages srv cfg yr 0 seen_ids offset stagnant_pages out reqs = Inr (out, reqs)"
| "iter_pages srv cfg yr (Suc pages_left) seen_ids offset stagnant_pages out reqs =
     (case fetch_fabrik_page srv reqs cfg yr offset of
        Inl e \<Rightarrow> Inl e
      | Inr (rows, reqs') \<Rightarrow>
          if rows = [] then Inr (out, reqs')
          else
            (case page_rows rows seen_ids 0 out of
               Inl e \<Rightarrow> Inl e
             | Inr (seen_ids', new_count, out') \<Rightarrow>
                 (let stagnant_pages' = (if new_count = 0 then stagnant_pages + 1 else 0) in
                  if stagnant_pages' \<ge> 2 then Inr (out', reqs')
                  else iter_pages srv cfg yr pages_left seen_ids' (offset + page_size cfg)
                         stagnant_pages' out' reqs')))"

definition iter_fabrik_matches ::
  "server \<Rightarrow> request list \<Rightarrow> fabrik_config \<Rightarrow> int \<Rightarrow> error + (row list \<times> request list)" where
  "iter_fabrik_matches srv reqs cfg yr =
     iter_pages srv cfg yr (nat (max_pages_per_year cfg)) [] 0 0 [] reqs"

subsection \<open>\<^verbatim>\<open>master_scrape.py\<close>: players\<close>

text \<open>A player record; \<^verbatim>\<open>stats\<close> is flattened, \<^verbatim>\<open>sources\<close> is a set kept as a list.\<close>

record player_record =
  pr_ittf_id :: string
  first_name :: "string option"
  last_name :: "string option"
  full_name :: "string option"
  dob :: "string option"
  nationality :: "string option"
  team :: "string option"
  stats_matches_played :: nat
  stats_wins :: nat
  stats_losses :: nat
  sources :: "string list"
  last_seen :: string

text \<open>\<^verbatim>\<open>d[k] = v\<close> on a dictionary in insertion order.\<close>

definition od_update :: "'k \<Rightarrow> 'v \<Rightarrow> ('k \<times> 'v) list \<Rightarrow> ('k \<times> 'v) list" where
  "od_update k v d =
     (case map_of d k of
        None \<Rightarrow> d @ [(k, v)]
      | Some _ \<Rightarrow> map (\<lambda>(k', v'). if k' = k then (k', v) else (k', v')) d)"

text \<open>\<^verbatim>\<open>d[k]\<close> followed by an update in place of the value found.\<close>

definition od_modify :: "'k \<Rightarrow> ('v \<Rightarrow> 'v) \<Rightarrow> ('k \<times> 'v) list \<Rightarrow> error + ('k \<times> 'v) list" where
  "od_modify k f d =
     (case map_of d k of None \<Rightarrow> Inl KeyError | Some v \<Rightarrow> Inr (od_update k (f v) d))"

definition opt_str :: "string option \<Rightarrow> string" where
  "opt_str s = (case s of None \<Rightarrow> [] | Some t \<Rightarrow> t)"

text \<open>\<^verbatim>\<open>upsert_player\<close>; \<open>now\<close> is what \<^verbatim>\<open>utc_now_iso()\<close> returns during the call.\<close>

definition upsert_player ::
  "string \<Rightarrow> (string \<times> player_record) list \<Rightarrow> string option \<Rightarrow> string option \<Rightarrow> string option \<Rightarrow>
     error + (string \<times> player_record) list" where
  "upsert_player now players ittf_id_arg name_arg association_arg =
     (if \<not> opt_truthy ittf_id_arg then Inr players
      else
        (let pid = opt_str ittf_id_arg in
         bind_err
           (case map_of players pid of
              Some r \<Rightarrow> Inr r
            | None \<Rightarrow>
                bind_err (normalize_name (opt_str name_arg)) (\<lambda>(first, last, full).
                  Inr \<lparr>pr_ittf_id = pid, first_name = first, last_name = last, full_name = full,
                       dob = None, nationality = association_arg, team = None,
                       stats_matches_played = 0, stats_wins = 0, stats_losses = 0,
                       sources = [], last_seen = now\<rparr>))
           (\<lambda>record0.
              (let record1 =
                     (if opt_truthy association_arg \<and> \<not> opt_truthy (nationality record0)
                      then record0\<lparr>nationality := association_arg\<rparr> else record0)
               in
               bind_err
                 (if opt_truthy name_arg \<and> \<not> opt_truthy (full_name record1)
                  then bind_err (normalize_name (opt_str name_arg)) (\<lambda>(first, last, full).
                         Inr (record1\<lparr>first_name := first, last_name := last, full_name := full\<rparr>))
                  else Inr record1)
                 (\<lambda>record2.
                    Inr (od_update pid
                           (record2\<lparr>last_seen := now,
                                    sources := (if ''fabrik_matches'' \<in> set (sources record2)
                                                then sources record2
                                                else sources record2 @ [''fabrik_matches''])\<rparr>)
                           players))))))"

subsection \<open>\<^verbatim>\<open>master_scrape.py\<close>: the run\<close>

record master_state =
  players :: "(string \<times> player_record) list"
  matches :: "match_dict list"
  player_match_index :: "(string \<times> string list) list"

text \<open>\<^verbatim>\<open>player_match_index.setdefault(pid, []).append(match_id)\<close> and
  \<^verbatim>\<open>players[pid]["stats"]["matches_played"] += 1\<close>.\<close>

definition count_match :: "string \<Rightarrow> string \<Rightarrow> master_state \<Rightarrow> error + master_state" where
  "count_match pid mid st =
     bind_err (od_modify pid (\<lambda>r. r\<lparr>stats_matches_played := stats_matches_played r + 1\<rparr>) (players st))
       (\<lambda>ps. Inr (st\<lparr>players := ps,
                      player_match_index :=
                        od_update pid
                          ((case map_of (player_match_index st) pid of None \<Rightarrow> [] | Some l \<Rightarrow> l) @ [mid])
                          (player_match_index st)\<rparr>))"

text \<open>\<^verbatim>\<open>players[w]["stats"]["wins"] += 1\<close> and \<^verbatim>\<open>players[l]["stats"]["losses"] += 1\<close>.\<close>

definition count_result :: "string \<Rightarrow> string \<Rightarrow> master_state \<Rightarrow> error + master_state" where
  "count_result winner loser st =
     bind_err (od_modify winner (\<lambda>r. r\<lparr>stats_wins := stats_wins r + 1\<rparr>) (players st)) (\<lambda>ps1.
     bind_err (od_modify loser (\<lambda>r. r\<lparr>stats_losses := stats_losses r + 1\<rparr>) ps1) (\<lambda>ps2.
       Inr (st\<lparr>players := ps2\<rparr>)))"

text \<open>The body of \<^verbatim>\<open>for row in iter_fabrik_matches(...)\<close> in \<^verbatim>\<open>main\<close>.\<close>

definition main_row :: "string \<Rightarrow> master_state \<Rightarrow> row \<Rightarrow> error + master_state" where
  "main_row now st row =
     bind_err (row_to_match row) (\<lambda>m.
       (let a = m_player_a m; x = m_player_x m; a_id = ittf_id a; x_id = ittf_id x in
        bind_err (upsert_player now (players st) a_id (name a) (association a)) (\<lambda>ps1.
        bind_err (upsert_player now ps1 x_id (name x) (association x)) (\<lambda>ps2.
          (let st1 = st\<lparr>matches := matches st @ [m], players := ps2\<rparr> in
           if m_match_id m = [] then Inr st1
           else
             bind_err (if opt_truthy a_id then count_match (opt_str a_id) (m_match_id m) st1 else Inr st1) (\<lambda>st2.
             bind_err (if opt_truthy x_id then count_match (opt_str x_id) (m_match_id m) st2 else Inr st2) (\<lambda>st3.
               if m_winner_inferred m = Some ''A'' \<and> opt_truthy a_id \<and> opt_truthy x_id
               then count_result (opt_str a_id) (opt_str x_id) st3
               else if m_winner_inferred m = Some ''X'' \<and> opt_truthy a_id \<and> opt_truthy x_id
               then count_result (opt_str x_id) (opt_str a_id) st3
               else Inr st3)))))))"

fun main_rows :: "(nat \<Rightarrow> string) \<Rightarrow> master_state \<Rightarrow> row list \<Rightarrow> error + master_state" where
  "main_rows clock st [] = Inr st"
| "main_rows clock st (row # rows) =
     (case main_row (clock (length (matches st))) st row of
        Inl e \<Rightarrow> Inl e
      | Inr st' \<Rightarrow> main_rows clock st' rows)"

text \<open>\<^verbatim>\<open>for year in years\<close> in \<^verbatim>\<open>main\<close>. Nothing catches an exception, and the files are
  written after the loop: the result is the data set or the exception that ended the run.
  \<open>clock\<close> gives the time stamp used while the \<open>n\<close>-th match is handled.\<close>

fun main_years ::
  "server \<Rightarrow> fabrik_config \<Rightarrow> (nat \<Rightarrow> string) \<Rightarrow> int list \<Rightarrow> master_state \<Rightarrow> request list \<Rightarrow>
     error + (master_state \<times> request list)" where
  "main_years srv cfg clock [] st reqs = Inr (st, reqs)"
| "main_years srv cfg clock (yr # yrs) st reqs =
     (case iter_fabrik_matches srv reqs cfg yr of
        Inl e \<Rightarrow> Inl e
      | Inr (rows, reqs') \<Rightarrow>
          (case main_rows clock st rows of
             Inl e \<Rightarrow> Inl e
           | Inr st' \<Rightarrow> main_years srv cfg clock yrs st' reqs'))"

definition master_main ::
  "server \<Rightarrow> fabrik_config \<Rightarrow> (nat \<Rightarrow> string) \<Rightarrow> int list \<Rightarrow> error + (master_state \<times> request list)" where
  "master_main srv cfg clock years =
     main_years srv cfg clock years \<lparr>players = [], matches = [], player_match_index = []\<rparr> []"

section \<open>\<^verbatim>\<open>scrape_ttbl_enhanced.py\<close>\<close>

text \<open>
  The script runs at module level. Its network is two functions: the schedule page of a
  game day, and the match API followed by \<^verbatim>\<open>json.loads\<close>; each gives a result or the
  exception raised. A decoded match is kept as far as the script reads it: whether the
  header lookups before the game loop succeed, the list under \<^verbatim>\<open>"games"\<close>, and the six
  roster entries. A game on which a lookup raises (it is not an object, or one of its
  player entries is not) is \<open>Bad_game\<close>. Nested objects are rows, \<^const>\<open>None\<close> when absent or
  \<^verbatim>\<open>null\<close>. Writing files is assumed not to fail, and what is only printed or only copied
  to \<^verbatim>\<open>games_data\<close> is left out.
\<close>

record ttbl_game =
  gameState :: pyval
  winnerSide :: pyval
  homePlayer :: "row option"
  homeLeaguePlayer :: "row option"
  awayPlayer :: "row option"
  awayLeaguePlayer :: "row option"

datatype game_json = Game ttbl_game | Bad_game

record ttbl_match =
  header_ok :: bool
  match_games :: "game_json list"
  roster :: "row option list"

record world =
  schedule_page :: "nat \<Rightarrow> error + string"
  match_api :: "string \<Rightarrow> error + ttbl_match"

text \<open>The first loop: \<^verbatim>\<open>for gameday in range(1, NUM_GAMEDAYS + 1)\<close>. The call of
  \<^verbatim>\<open>fetch_url\<close> is not inside a \<^verbatim>\<open>try\<close>. The two regular expressions that pull the match
  identifiers out of the page are the parameter \<open>find_ids\<close>.\<close>

fun gameday_loop ::
  "world \<Rightarrow> (string \<Rightarrow> string list) \<Rightarrow> nat list \<Rightarrow> string list \<Rightarrow> error + string list" where
  "gameday_loop w find_ids [] all_match_ids = Inr all_match_ids"
| "gameday_loop w find_ids (gameday # rest) all_match_ids =
     (case schedule_page w gameday of
        Inl e \<Rightarrow> Inl e
      | Inr html \<Rightarrow> gameday_loop w find_ids rest (all_match_ids @ find_ids html))"

text \<open>Keys of a dictionary: \<^verbatim>\<open>True\<close> and \<^verbatim>\<open>1\<close> are the same key, as are \<^verbatim>\<open>False\<close> and
  \<^verbatim>\<open>0\<close>.\<close>

definition py_key :: "pyval \<Rightarrow> pyval" where
  "py_key v = (case v of PBool b \<Rightarrow> PInt (if b then 1 else 0) | _ \<Rightarrow> v)"

record player_stat =
  ps_id :: pyval
  ps_name :: string
  gamesPlayed :: nat
  wins :: nat
  losses :: nat
  lastMatch :: string

text \<open>\<^verbatim>\<open>game.get("homePlayer") or game.get("homeLeaguePlayer") or {}\<close>.\<close>

definition pick_player :: "row option \<Rightarrow> row option \<Rightarrow> row" where
  "pick_player p q =
     (case p of
        Some r \<Rightarrow> if r \<noteq> [] then r else (case q of Some r' \<Rightarrow> r' | None \<Rightarrow> [])
      | None \<Rightarrow> (case q of Some r' \<Rightarrow> r' | None \<Rightarrow> []))"

definition player_id_of :: "row \<Rightarrow> pyval" where
  "player_id_of p = (if p \<noteq> [] then dict_get p ''id'' else PNone)"

definition player_name_of :: "row \<Rightarrow> string" where
  "player_name_of p =
     (if p \<noteq> []
      then py_strip (py_str (dict_get_default p ''firstName'' (PStr [])) @ '' '' @
                     py_str (dict_get_default p ''lastName'' (PStr [])))
      else ''Unknown'')"

text \<open>The block under \<^verbatim>\<open>if home_player_id and home_player_id != "null"\<close> (and the same
  block for the away player): create the entry if the identifier is new, then count the
  game, then count a win or a loss.\<close>

definition credit_game ::
  "string \<Rightarrow> pyval \<Rightarrow> string \<Rightarrow> bool \<Rightarrow> (pyval \<times> player_stat) list \<Rightarrow> (pyval \<times> player_stat) list" where
  "credit_game mid pid pname won player_stats =
     (let player_stats1 =
            (case map_of player_stats (py_key pid) of
               None \<Rightarrow>
                 player_stats @
                   [(py_key pid,
                     \<lparr>ps_id = pid, ps_name = pname, gamesPlayed = 0, wins = 0, losses = 0,
                      lastMatch = mid\<rparr>)]
             | Some _ \<Rightarrow> player_stats)
      in map (\<lambda>(k, s).
                if k = py_key pid
                then (k, s\<lparr>gamesPlayed := gamesPlayed s + 1, lastMatch := mid,
                           wins := (if won then wins s + 1 else wins s),
                           losses := (if won then losses s else losses s + 1)\<rparr>)
                else (k, s))
           player_stats1)"

definition process_game ::
  "string \<Rightarrow> ttbl_game \<Rightarrow> (pyval \<times> player_stat) list \<Rightarrow> (pyval \<times> player_stat) list" where
  "process_game mid g player_stats =
     (let home_player = pick_player (homePlayer g) (homeLeaguePlayer g);
          away_player = pick_player (awayPlayer g) (awayLeaguePlayer g);
          home_player_id = player_id_of home_player;
          away_player_id = player_id_of away_player
      in
      if gameState g = PStr ''Finished'' then
        (let stats1 =
               (if truthy home_player_id \<and> home_player_id \<noteq> PStr ''null''
                then credit_game mid home_player_id (player_name_of home_player)
                       (winnerSide g = PStr ''Home'') player_stats
                else player_stats)
         in
         if truthy away_player_id \<and> away_player_id \<noteq> PStr ''null''
         then credit_game mid away_player_id (player_name_of away_player)
                (winnerSide g = PStr ''Away'') stats1
         else stats1)
      else player_stats)"

text \<open>\<^verbatim>\<open>for game in games\<close>: the statistics when the loop ends, and the exception if it
  ended by one.\<close>

fun games_loop ::
  "string \<Rightarrow> game_json list \<Rightarrow> (pyval \<times> player_stat) list \<Rightarrow>
     (pyval \<times> player_stat) list \<times> error option" where
  "games_loop mid [] player_stats = (player_stats, None)"
| "games_loop mid (Bad_game # rest) player_stats = (player_stats, Some AttributeError)"
| "games_loop mid (Game g # rest) player_stats =
     games_loop mid rest (process_game mid g player_stats)"

record ttbl_state =
  player_stats :: "(pyval \<times> player_stat) list"
  match_files :: "(string \<times> ttbl_match) list"
  error_log :: "(string \<times> error) list"

text \<open>One turn of the second loop, \<^verbatim>\<open>for i, match_id in enumerate(all_match_ids)\<close>, whose
  body is one \<^verbatim>\<open>try\<close> with \<^verbatim>\<open>except Exception\<close>: print the error, \<^verbatim>\<open>continue\<close>.\<close>

definition match_step :: "world \<Rightarrow> ttbl_state \<Rightarrow> string \<Rightarrow> ttbl_state" where
  "match_step w st mid =
     (case match_api w mid of
        Inl e \<Rightarrow> st\<lparr>error_log := error_log st @ [(mid, e)]\<rparr>
      | Inr match_data \<Rightarrow>
          (let st1 = st\<lparr>match_files := od_update mid match_data (match_files st)\<rparr> in
           if \<not> header_ok match_data
           then st1\<lparr>error_log := error_log st1 @ [(mid, AttributeError)]\<rparr>
           else
             (case games_loop mid (match_games match_data) (player_stats st1) of
                (stats, None) \<Rightarrow> st1\<lparr>player_stats := stats\<rparr>
              | (stats, Some e) \<Rightarrow>
                  st1\<lparr>player_stats := stats, error_log := error_log st1 @ [(mid, e)]\<rparr>)))"

fun match_loop :: "world \<Rightarrow> ttbl_state \<Rightarrow> string list \<Rightarrow> ttbl_state" where
  "match_loop w st [] = st"
| "match_loop w st (mid # rest) = match_loop w (match_step w st mid) rest"

text \<open>Step 4: the roster entries of the match files on disk, and the dictionary
  \<^verbatim>\<open>unique_players\<close>.\<close>

record player_entry =
  pe_id :: pyval
  pe_firstName :: pyval
  pe_lastName :: pyval
  pe_imageUrl :: pyval
  pe_matchId :: string

definition roster_entries :: "string \<Rightarrow> ttbl_match \<Rightarrow> player_entry list" where
  "roster_entries mid match_data =
     List.map_filter
       (\<lambda>p. case p of
               None \<Rightarrow> None
             | Some r \<Rightarrow>
                 if r = [] then None
                 else Some \<lparr>pe_id = dict_get r ''id'', pe_firstName = dict_get r ''firstName'',
                            pe_lastName = dict_get r ''lastName'', pe_imageUrl = dict_get r ''imageUrl'',
                            pe_matchId = mid\<rparr>)
       (roster match_data)"

definition all_players_of :: "(string \<times> ttbl_match) list \<Rightarrow> string list \<Rightarrow> player_entry list" where
  "all_players_of files all_match_ids =
     concat (map (\<lambda>mid. case map_of files mid of
                                None \<Rightarrow> []
                              | Some match_data \<Rightarrow> roster_entries mid match_data)
               all_match_ids)"

fun unique_players_loop ::
  "player_entry list \<Rightarrow> (pyval \<times> player_entry) list \<Rightarrow> (pyval \<times> player_entry) list" where
  "unique_players_loop [] unique_players = unique_players"
| "unique_players_loop (player # rest) unique_players =
     unique_players_loop rest
       (if truthy (pe_id player) \<and> map_of unique_players (py_key (pe_id player)) = None
        then unique_players @ [(py_key (pe_id player), player)]
        else unique_players)"

definition unique_players :: "player_entry list \<Rightarrow> (pyval \<times> player_entry) list" where
  "unique_players all_players = unique_players_loop all_players []"

subsection \<open>Win rates\<close>

text \<open>
  \<^verbatim>\<open>int(wins / gamesPlayed * 100)\<close> is computed in binary floating point: the quotient of
  the two integers is rounded to the nearest double, the product with 100 is rounded
  again, and \<^verbatim>\<open>int\<close> cuts off the fraction. A non-negative double is kept as a pair \<open>(m, k)\<close>
  of integers that stands for \<open>m * 2 ^ k\<close>, with 53 bits in \<open>m\<close>. Rounding is to nearest,
  ties to the even mantissa. The exponent is not bounded (no overflow, no subnormal
  numbers), which is exact for quotients of integers below \<open>2 ^ 1000\<close>.
\<close>

text \<open>The number of binary digits of a positive integer.\<close>

function bitlen :: "int \<Rightarrow> nat" where
  "bitlen n = (if n \<le> 0 then 0 else Suc (bitlen (n div 2)))"
  by pat_completeness auto
termination
  by (relation "measure nat") auto

declare bitlen.simps [simp del]

text \<open>The integer nearest to \<open>a / b\<close>, the even one of two.\<close>

definition div_half_even :: "int \<Rightarrow> int \<Rightarrow> int" where
  "div_half_even a b =
     (let q = a div b; r = a mod b in
      if 2 * r < b then q else if 2 * r > b then q + 1 else if even q then q else q + 1)"

text \<open>The double nearest to \<open>a / b\<close> for \<open>a \<ge> 0\<close> and \<open>b > 0\<close>: with \<open>e\<close> the exponent of the
  quotient, \<open>2 ^ e \<le> a / b < 2 ^ (e + 1)\<close>, the mantissa is \<open>a / b * 2 ^ (52 - e)\<close> rounded.\<close>

definition nearest_double :: "int \<Rightarrow> int \<Rightarrow> int \<times> int" where
  "nearest_double a b =
     (if a = 0 then (0, 0)
      else
        (let d = int (bitlen a) - int (bitlen b);
             e = (if (if d \<ge> 0 then a \<ge> b * 2 ^ nat d else a * 2 ^ nat (- d) \<ge> b) then d else d - 1);
             s = 52 - e
         in (if s \<ge> 0 then div_half_even (a * 2 ^ nat s) b
             else div_half_even a (b * 2 ^ nat (- s)),
             - s)))"

text \<open>The product of a double and a small integer, rounded; the integer part of a double.\<close>

definition float_mul_int :: "int \<times> int \<Rightarrow> int \<Rightarrow> int \<times> int" where
  "float_mul_int x c =
     (case x of (m, k) \<Rightarrow>
        if k \<ge> 0 then nearest_double (m * c * 2 ^ nat k) 1 else nearest_double (m * c) (2 ^ nat (- k)))"

definition float_trunc :: "int \<times> int \<Rightarrow> int" where
  "float_trunc x = (case x of (m, k) \<Rightarrow> if k \<ge> 0 then m * 2 ^ nat k else m div 2 ^ nat (- k))"

text \<open>\<^verbatim>\<open>int(wins / gamesPlayed * 100)\<close>.\<close>

definition win_rate :: "nat \<Rightarrow> nat \<Rightarrow> int" where
  "win_rate w g = float_trunc (float_mul_int (nearest_double (int w) (int g)) 100)"

record player_final = player_stat +
  winRate :: int

text \<open>The body of \<^verbatim>\<open>for player_id, stats in player_stats.items()\<close>.\<close>

definition with_win_rate :: "player_stat \<Rightarrow> player_final" where
  "with_win_rate s =
     \<lparr>ps_id = ps_id s, ps_name = ps_name s, gamesPlayed = gamesPlayed s, wins = wins s,
      losses = losses s, lastMatch = lastMatch s,
      winRate = (if gamesPlayed s > 0 then win_rate (wins s) (gamesPlayed s) else 0)\<rparr>"

text \<open>\<^verbatim>\<open>player_stats_final\<close> after \<^verbatim>\<open>sort(key=lambda x: x["winRate"], reverse=True)\<close>: a
  stable sort, so records of equal rate keep their order.\<close>

definition player_stats_final :: "(pyval \<times> player_stat) list \<Rightarrow> player_final list" where
  "player_stats_final stats = sort_key (\<lambda>p. - winRate p) (map (\<lambda>(k, s). with_win_rate s) stats)"

text \<open>The script up to step 4: the content of \<^verbatim>\<open>player_stats_final.json\<close> and of
  \<^verbatim>\<open>unique_players.json\<close>, and the errors printed; or the exception that ended it.
  \<open>files\<close> are the match files found on disk.\<close>

definition ttbl_script ::
  "world \<Rightarrow> (string \<Rightarrow> string list) \<Rightarrow> (string \<times> ttbl_match) list \<Rightarrow>
     error + (player_final list \<times> (pyval \<times> player_entry) list \<times> (string \<times> error) list)" where
  "ttbl_script w find_ids files =
     (case gameday_loop w find_ids [1 ..< 19] [] of
        Inl e \<Rightarrow> Inl e
      | Inr found \<Rightarrow>
          (let all_match_ids = sort (remdups found);
               st = match_loop w \<lparr>player_stats = [], match_files = files, error_log = []\<rparr> all_match_ids
           in Inr (player_stats_final (player_stats st),
                   unique_players (all_players_of (match_files st) all_match_ids),
                   error_log st)))"

section \<open>\<^verbatim>\<open>WTTRestScraper._request_with_retry\<close>\<close>

text \<open>What one call of \<^verbatim>\<open>session.request\<close> does: it raises a \<^verbatim>\<open>RequestException\<close>, or it
  returns a response, of which the function reads the status code, the header
  \<^verbatim>\<open>Retry-After\<close> (absent or a string) and the JSON body (\<^const>\<open>None\<close> when
  \<^verbatim>\<open>response.json()\<close> raises \<^verbatim>\<open>ValueError\<close>).\<close>

datatype 'j attempt = Raises | Responds int "string option" "'j option"

text \<open>\<^verbatim>\<open>int(response.headers.get("Retry-After", 5))\<close>.\<close>

definition retry_after_of :: "string option \<Rightarrow> int option" where
  "retry_after_of h = (case h of None \<Rightarrow> Some 5 | Some s \<Rightarrow> py_int s)"

record 'j retry_result =
  outcome :: "error + 'j option"
  requests_made :: nat
  slept :: "int list"

text \<open>\<^verbatim>\<open>for attempt in range(self.config.max_retries)\<close>, over the attempt numbers still
  to come; \<open>world k\<close> is what the \<open>k\<close>-th call does. Only \<^verbatim>\<open>requests.RequestException\<close> is
  caught: a \<^verbatim>\<open>ValueError\<close> from \<^verbatim>\<open>int\<close>, or from \<^verbatim>\<open>time.sleep\<close> on a negative number, leaves
  the function. \<open>sl\<close> lists the arguments of \<^verbatim>\<open>time.sleep\<close> so far.\<close>

fun retry_loop :: "(nat \<Rightarrow> 'j attempt) \<Rightarrow> nat list \<Rightarrow> nat \<Rightarrow> int list \<Rightarrow> 'j retry_result" where
  "retry_loop world [] n sl = \<lparr>outcome = Inr None, requests_made = n, slept = sl\<rparr>"
| "retry_loop world (attempt # rest) n sl =
     (case world attempt of
        Raises \<Rightarrow> retry_loop world rest (n + 1) (sl @ [2 ^ attempt])
      | Responds status_code retry_after_header body \<Rightarrow>
          if status_code = 429 then
            (case retry_after_of retry_after_header of
               None \<Rightarrow> \<lparr>outcome = Inl ValueError, requests_made = n + 1, slept = sl\<rparr>
             | Some retry_after \<Rightarrow>
                 (let wait_time = retry_after * 2 ^ attempt in
                  if wait_time < 0
                  then \<lparr>outcome = Inl ValueError, requests_made = n + 1, slept = sl\<rparr>
                  else retry_loop world rest (n + 1) (sl @ [wait_time])))
          else if status_code = 200 then
            \<lparr>outcome = Inr body, requests_made = n + 1, slept = sl\<rparr>
          else if status_code \<in> {401, 403, 404} then
            \<lparr>outcome = Inr None, requests_made = n + 1, slept = sl\<rparr>
          else if 500 \<le> status_code \<and> status_code < 600 then
            retry_loop world rest (n + 1) (sl @ [2 ^ attempt])
          else \<lparr>outcome = Inr None, requests_made = n + 1, slept = sl\<rparr>)"

definition request_with_retry :: "(nat \<Rightarrow> 'j attempt) \<Rightarrow> int \<Rightarrow> 'j retry_result" where
  "request_with_retry world max_retries = retry_loop world [0 ..< nat max_retries] 0 []"


section \<open>Vocabulary of the properties\<close>

text \<open>A token is a non-empty string without white space: what \<^verbatim>\<open>split()\<close> returns.\<close>

definition is_token :: "string \<Rightarrow> bool" where
  "is_token t = (t \<noteq> [] \<and> (\<forall>c \<in> set t. \<not> py_isspace c))"

text \<open>The games each side won in a list of \<open>(game number, points of A, points of X)\<close>.\<close>

definition games_won_a :: "(nat \<times> int \<times> int) list \<Rightarrow> nat" where
  "games_won_a ps = length (filter (\<lambda>(i, a, x). a > x) ps)"

definition games_won_x :: "(nat \<times> int \<times> int) list \<Rightarrow> nat" where
  "games_won_x ps = length (filter (\<lambda>(i, a, x). x > a) ps)"

text \<open>What \<^verbatim>\<open>_request_with_retry\<close> retries: an exception of the request, a status 5xx, or a
  status 429 whose \<^verbatim>\<open>Retry-After\<close> is absent or a non-negative integer; and the time it
  sleeps after attempt \<open>k\<close>.\<close>

definition retryable :: "'j attempt \<Rightarrow> bool" where
  "retryable a =
     (case a of
        Raises \<Rightarrow> True
      | Responds s h b \<Rightarrow>
          if s = 429 then (case retry_after_of h of None \<Rightarrow> False | Some ra \<Rightarrow> ra \<ge> 0)
          else 500 \<le> s \<and> s < 600)"

definition backoff :: "nat \<Rightarrow> 'j attempt \<Rightarrow> int" where
  "backoff k a =
     (case a of
        Raises \<Rightarrow> 2 ^ k
      | Responds s h b \<Rightarrow>
          if s = 429 then (case retry_after_of h of None \<Rightarrow> 0 | Some ra \<Rightarrow> ra * 2 ^ k) else 2 ^ k)"

text \<open>The match identifiers whose request succeeds, and states that differ in their error
  log only.\<close>

definition fetched :: "world \<Rightarrow> string \<Rightarrow> bool" where
  "fetched w mid = (case match_api w mid of Inl e \<Rightarrow> False | Inr d \<Rightarrow> True)"

definition same_data :: "ttbl_state \<Rightarrow> ttbl_state \<Rightarrow> bool" where
  "same_data s t = (player_stats s = player_stats t \<and> match_files s = match_files t)"

text \<open>The identifier of a row as \<^verbatim>\<open>iter_fabrik_matches\<close> reads it, and the request for
  the \<open>i\<close>-th page after the one at \<open>offset\<close>.\<close>

definition row_id :: "row \<Rightarrow> string" where
  "row_id r = py_strip (py_str (dict_get_default r ''vw_matches___id'' (PStr [])))"

definition page_request :: "fabrik_config \<Rightarrow> int \<Rightarrow> int \<Rightarrow> nat \<Rightarrow> request" where
  "page_request cfg yr offset i =
     \<lparr>req_year = yr, req_limit = page_size cfg, req_offset = Some (offset + int i * page_size cfg)\<rparr>"

text \<open>The entries a match offers to \<^verbatim>\<open>extract_player_ids\<close>, and the entry a roster record
  offers to \<^verbatim>\<open>unique_players\<close>, in the order of the input.\<close>

definition match_entries :: "fabrik_match \<Rightarrow> (string \<times> pyval) list" where
  "match_entries m =
     (player_id m, player_name m) #
     (case opponent_id m of None \<Rightarrow> [] | Some oid \<Rightarrow> if oid \<noteq> [] then [(oid, opponent_name m)] else [])"

definition entry_key :: "player_entry \<Rightarrow> (pyval \<times> player_entry) list" where
  "entry_key p = (if truthy (pe_id p) then [(py_key (pe_id p), p)] else [])"

text \<open>What the league script has to count. A finished game credits its home player and
  its away player, each if the game names an identifier for them: a win to the side named by
  \<^verbatim>\<open>winnerSide\<close>, a loss to the other. A credit is the dictionary key of the player and
  whether the game was won.\<close>

definition game_credits :: "ttbl_game \<Rightarrow> (pyval \<times> bool) list" where
  "game_credits g =
     (if gameState g = PStr ''Finished'' then
        (let h = player_id_of (pick_player (homePlayer g) (homeLeaguePlayer g));
             a = player_id_of (pick_player (awayPlayer g) (awayLeaguePlayer g))
         in (if truthy h \<and> h \<noteq> PStr ''null'' then [(py_key h, winnerSide g = PStr ''Home'')] else []) @
            (if truthy a \<and> a \<noteq> PStr ''null'' then [(py_key a, winnerSide g = PStr ''Away'')] else []))
      else [])"

text \<open>The games of a match that are read: those before the first entry that is not a game
  object.\<close>

fun games_reached :: "game_json list \<Rightarrow> ttbl_game list" where
  "games_reached [] = []"
| "games_reached (Bad_game # rest) = []"
| "games_reached (Game g # rest) = g # games_reached rest"

text \<open>The credits of a match: none when the request fails or the answer has no header.\<close>

definition match_credits :: "world \<Rightarrow> string \<Rightarrow> (pyval \<times> bool) list" where
  "match_credits w mid =
     (case match_api w mid of
        Inl e \<Rightarrow> []
      | Inr md \<Rightarrow> if header_ok md then concat (map game_credits (games_reached (match_games md))) else [])"

definition games_of :: "pyval \<Rightarrow> (pyval \<times> bool) list \<Rightarrow> nat" where
  "games_of k cs = length (filter (\<lambda>c. fst c = k) cs)"

definition wins_of :: "pyval \<Rightarrow> (pyval \<times> bool) list \<Rightarrow> nat" where
  "wins_of k cs = length (filter (\<lambda>c. fst c = k \<and> snd c) cs)"

definition losses_of :: "pyval \<Rightarrow> (pyval \<times> bool) list \<Rightarrow> nat" where
  "losses_of k cs = length (filter (\<lambda>c. fst c = k \<and> \<not> snd c) cs)"

text \<open>Statistics that tally with a list of credits: one entry for each key that has a credit
  and for no other, filed under the key of its identifier, with as many games, wins and
  losses as the key has credits, won credits and lost credits.\<close>

definition tallies :: "(pyval \<times> player_stat) list \<Rightarrow> (pyval \<times> bool) list \<Rightarrow> bool" where
  "tallies stats cs =
     (distinct (map fst stats) \<and>
      (\<forall>(k, s) \<in> set stats. k = py_key (ps_id s)) \<and>
      (\<forall>k. case map_of stats k of
             None \<Rightarrow> games_of k cs = 0
           | Some s \<Rightarrow> gamesPlayed s = games_of k cs \<and> wins s = wins_of k cs \<and> losses s = losses_of k cs
                        \<and> 0 < games_of k cs))"

text \<open>The exact rate, \<open>\<lfloor>100 * wins / gamesPlayed\<rfloor>\<close>.\<close>

definition floor_rate :: "nat \<Rightarrow> nat \<Rightarrow> int" where
  "floor_rate w g = (100 * int w) div int g"

section \<open>Example inputs\<close>

text \<open>A list server with three matches on two pages of size 2; it serves the first page
  when no offset is sent.\<close>

definition two_page_server :: server where
  "two_page_server n req =
     (if req_offset req = None \<or> req_offset req = Some 0 then
        Json_list [Dict [(''vw_matches___id'', PStr ''1'')], Dict [(''vw_matches___id'', PStr ''2'')]]
      else if req_offset req = Some 2 then
        Json_list [Dict [(''vw_matches___id'', PStr ''3'')]]
      else Json_list [])"


text \<open>A list server that fails with an HTTP error for the year 2025 and has no match for
  any other year; a configuration; a clock.\<close>

definition failing_2025_server :: server where
  "failing_2025_server n req = (if req_year req = 2025 then Failure HTTPError else Json_list [])"

definition example_config :: fabrik_config where
  "example_config = \<lparr>list_id = ''31'', page_size = 2, max_pages_per_year = 500\<rparr>"

definition example_clock :: "nat \<Rightarrow> string" where
  "example_clock n = ''2026-01-09T00:00:00+00:00''"

text \<open>A rate-limited endpoint that sends \<^verbatim>\<open>Retry-After\<close> as an HTTP date.\<close>

definition rate_limited_with_date :: "nat \<Rightarrow> unit attempt" where
  "rate_limited_with_date k = Responds 429 (Some ''Wed, 21 Oct 2015 07:28:00 GMT'') None"

text \<open>A league API on which the request for match \<^verbatim>\<open>m1\<close> fails and match \<^verbatim>\<open>m2\<close> has one
  finished game, won by the home player.\<close>

definition example_world :: world where
  "example_world =
     \<lparr>schedule_page = (\<lambda>gameday. Inr []),
      match_api = (\<lambda>mid.
        if mid = ''m1'' then Inl URLError
        else Inr \<lparr>header_ok = True,
                  match_games =
                    [Game \<lparr>gameState = PStr ''Finished'', winnerSide = PStr ''Home'',
                           homePlayer = Some [(''id'', PStr ''p1''), (''firstName'', PStr ''Timo''),
                                              (''lastName'', PStr ''Boll'')],
                           homeLeaguePlayer = None,
                           awayPlayer = Some [(''id'', PStr ''p2''), (''firstName'', PStr ''Dang''),
                                              (''lastName'', PStr ''Qiu'')],
                           awayLeaguePlayer = None\<rparr>],
                  roster = []\<rparr>)\<rparr>"

definition empty_state :: ttbl_state where
  "empty_state = \<lparr>player_stats = [], match_files = [], error_log = []\<rparr>"

text \<open>Two roster records with the same identifier.\<close>

definition entry_first :: player_entry where
  "entry_first = \<lparr>pe_id = PStr ''p1'', pe_firstName = PStr ''Timo'', pe_lastName = PStr ''Boll'',
                   pe_imageUrl = PNone, pe_matchId = ''m1''\<rparr>"

definition entry_second :: player_entry where
  "entry_second = \<lparr>pe_id = PStr ''p1'', pe_firstName = PStr ''T.'', pe_lastName = PStr ''Boll'',
                    pe_imageUrl = PNone, pe_matchId = ''m2''\<rparr>"

text \<open>The record \<^verbatim>\<open>upsert_player\<close> creates for a first occurrence of player 121404.\<close>

definition example_player :: player_record where
  "example_player =
     \<lparr>pr_ittf_id = ''121404'', first_name = Some ''Chuqin'', last_name = Some ''WANG'',
      full_name = Some ''WANG Chuqin'', dob = None, nationality = Some ''CHN'', team = None,
      stats_matches_played = 0, stats_wins = 0, stats_losses = 0,
      sources = [''fabrik_matches''], last_seen = ''2026-01-09T00:00:00+00:00''\<rparr>"

text \<open>A schedule on which the matches \<^verbatim>\<open>m2\<close> and \<^verbatim>\<open>m1\<close> are found; a league API on which
  match \<^verbatim>\<open>m1\<close> has fifty finished games between the same two players, 29 won by the home
  player, and every other request fails.\<close>

definition example_find_ids :: "string \<Rightarrow> string list" where
  "example_find_ids html = [''m2'', ''m1'']"

definition home_win :: game_json where
  "home_win = Game \<lparr>gameState = PStr ''Finished'', winnerSide = PStr ''Home'',
                    homePlayer = Some [(''id'', PStr ''p1''), (''firstName'', PStr ''Timo''),
                                       (''lastName'', PStr ''Boll'')],
                    homeLeaguePlayer = None,
                    awayPlayer = Some [(''id'', PStr ''p2''), (''firstName'', PStr ''Dang''),
                                       (''lastName'', PStr ''Qiu'')],
                    awayLeaguePlayer = None\<rparr>"

definition away_win :: game_json where
  "away_win = Game \<lparr>gameState = PStr ''Finished'', winnerSide = PStr ''Away'',
                    homePlayer = Some [(''id'', PStr ''p1''), (''firstName'', PStr ''Timo''),
                                       (''lastName'', PStr ''Boll'')],
                    homeLeaguePlayer = None,
                    awayPlayer = Some [(''id'', PStr ''p2''), (''firstName'', PStr ''Dang''),
                                       (''lastName'', PStr ''Qiu'')],
                    awayLeaguePlayer = None\<rparr>"

definition fifty_games_world :: world where
  "fifty_games_world =
     \<lparr>schedule_page = (\<lambda>gameday. Inr []),
      match_api = (\<lambda>mid.
        if mid = ''m1''
        then Inr \<lparr>header_ok = True,
                  match_games = replicate 29 home_win @ replicate 21 away_win,
                  roster = []\<rparr>
        else Inl URLError)\<rparr>"

text \<open>A league API on which match \<^verbatim>\<open>m1\<close> has two games won by the away player, between
  them a game that is not finished, then a game won by the home player, then an entry that
  is not a game object and a further game; and match \<^verbatim>\<open>m2\<close> has three games.\<close>

definition unfinished :: game_json where
  "unfinished = Game \<lparr>gameState = PStr ''Live'', winnerSide = PNone,
                      homePlayer = Some [(''id'', PStr ''p1''), (''firstName'', PStr ''Timo''),
                                         (''lastName'', PStr ''Boll'')],
                      homeLeaguePlayer = None,
                      awayPlayer = Some [(''id'', PStr ''p2''), (''firstName'', PStr ''Dang''),
                                         (''lastName'', PStr ''Qiu'')],
                      awayLeaguePlayer = None\<rparr>"

definition mixed_games_world :: world where
  "mixed_games_world =
     \<lparr>schedule_page = (\<lambda>gameday. Inr []),
      match_api = (\<lambda>mid.
        if mid = ''m1''
        then Inr \<lparr>header_ok = True,
                  match_games = [away_win, unfinished, away_win, home_win, Bad_game, home_win],
                  roster = []\<rparr>
        else if mid = ''m2''
        then Inr \<lparr>header_ok = True, match_games = [home_win, away_win, away_win], roster = []\<rparr>
        else Inl URLError)\<rparr>"

chapter \<open>Properties\<close>

section \<open>Facts about the built-ins\<close>

subsection \<open>Stripping and splitting\<close>

lemma dropWhile_hd_id: "xs = [] \<or> \<not> P (hd xs) \<Longrightarrow> dropWhile P xs = xs"
  by (cases xs) auto

lemma py_strip_id:
  assumes "s \<noteq> []" "\<not> py_isspace (hd s)" "\<not> py_isspace (last s)"
  shows "py_strip s = s"
proof -
  have "dropWhile py_isspace s = s" using assms by (simp add: dropWhile_hd_id)
  moreover have "dropWhile py_isspace (rev s) = rev s"
    using assms by (simp add: dropWhile_hd_id hd_rev)
  ultimately show ?thesis by (simp add: py_strip_def)
qed

lemma py_strip_token: "is_token t \<Longrightarrow> py_strip t = t"
  by (rule py_strip_id) (auto simp: is_token_def)

lemma space_isspace: "py_isspace CHR '' ''"
  by (simp add: py_isspace_def)

lemma py_strip_two_tokens:
  assumes "is_token s" "is_token f"
  shows "py_strip (s @ CHR '' '' # f) = s @ CHR '' '' # f"
proof (rule py_strip_id)
  show "s @ CHR '' '' # f \<noteq> []" by simp
  show "\<not> py_isspace (hd (s @ CHR '' '' # f))" using assms(1) by (cases s) (auto simp: is_token_def)
  show "\<not> py_isspace (last (s @ CHR '' '' # f))" using assms(2) by (auto simp: is_token_def)
qed

lemma split_go_nospace:
  "\<forall>c \<in> set t. \<not> py_isspace c \<Longrightarrow> split_go cur t = (if cur @ t = [] then [] else [cur @ t])"
  by (induction t arbitrary: cur) auto

lemma split_go_nospace_then:
  "\<forall>c \<in> set t. \<not> py_isspace c \<Longrightarrow> py_isspace d \<Longrightarrow> cur @ t \<noteq> [] \<Longrightarrow>
     split_go cur (t @ d # rest) = (cur @ t) # split_go [] rest"
  by (induction t arbitrary: cur) auto

lemma py_split_token: "is_token t \<Longrightarrow> py_split t = [t]"
  by (simp add: py_split_def split_go_nospace is_token_def)

lemma py_split_two_tokens:
  assumes "is_token s" "is_token f"
  shows "py_split (s @ CHR '' '' # f) = [s, f]"
proof -
  have "split_go [] (s @ CHR '' '' # f) = ([] @ s) # split_go [] f"
    using assms(1) by (intro split_go_nospace_then) (auto simp: is_token_def space_isspace)
  moreover have "split_go [] f = [f]"
    using assms(2) by (simp add: split_go_nospace is_token_def)
  ultimately show ?thesis by (simp add: py_split_def)
qed

subsection \<open>\<^verbatim>\<open>int(str(i))\<close> is \<open>i\<close>\<close>

lemma is_digit_char_of: "k < 10 \<Longrightarrow> is_digit (char_of (48 + (k::nat)))"
  by (simp add: is_digit_def)

lemma digit_val_char_of: "k < 10 \<Longrightarrow> digit_val (char_of (48 + (k::nat))) = k"
  by (simp add: digit_val_def)

lemma digits_go_all_digits:
  "ds \<noteq> [] \<Longrightarrow> \<forall>c \<in> set ds. is_digit c \<Longrightarrow>
     digits_go acc prev ds = Some (foldl (\<lambda>a c. 10 * a + digit_val c) acc ds)"
proof (induction ds arbitrary: acc prev)
  case Nil
  then show ?case by simp
next
  case (Cons c cs)
  show ?case
  proof (cases "cs = []")
    case True
    then show ?thesis using Cons.prems by simp
  next
    case False
    then show ?thesis
      using Cons.prems Cons.IH [of "10 * acc + digit_val c" True] by simp
  qed
qed

lemma str_of_nat_digits: "\<forall>c \<in> set (str_of_nat n). is_digit c"
proof (induction n rule: str_of_nat.induct)
  case (1 n)
  show ?case
  proof (cases "n < 10")
    case True
    then show ?thesis by (subst str_of_nat.simps) (simp add: is_digit_char_of)
  next
    case False
    have "n mod 10 < 10" by simp
    then have "is_digit (char_of (48 + n mod 10))" by (rule is_digit_char_of)
    with False 1 show ?thesis by (subst str_of_nat.simps) auto
  qed
qed

lemma str_of_nat_nonempty: "str_of_nat n \<noteq> []"
  by (subst str_of_nat.simps) simp

lemma str_of_nat_value:
  "foldl (\<lambda>a c. 10 * a + digit_val c) acc (str_of_nat n) = acc * 10 ^ length (str_of_nat n) + n"
proof (induction n arbitrary: acc rule: str_of_nat.induct)
  case (1 n)
  show ?case
  proof (cases "n < 10")
    case True
    then show ?thesis by (subst (1 2) str_of_nat.simps) (simp add: digit_val_char_of)
  next
    case False
    have m: "n mod 10 < 10" by simp
    have "foldl (\<lambda>a c. 10 * a + digit_val c) acc (str_of_nat n) =
            10 * foldl (\<lambda>a c. 10 * a + digit_val c) acc (str_of_nat (n div 10)) + n mod 10"
      using False by (subst str_of_nat.simps) (simp add: digit_val_char_of [OF m])
    also have "\<dots> = 10 * (acc * 10 ^ length (str_of_nat (n div 10)) + n div 10) + n mod 10"
      using 1 [OF False] by simp
    also have "\<dots> = acc * 10 ^ length (str_of_nat n) + n"
      using False by (subst (2) str_of_nat.simps) (simp add: algebra_simps)
    finally show ?thesis .
  qed
qed

lemma digits_go_str_of_nat: "digits_go 0 False (str_of_nat n) = Some n"
  by (simp add: digits_go_all_digits str_of_nat_digits str_of_nat_nonempty str_of_nat_value)

lemma digit_not_int_space: "is_digit c \<Longrightarrow> \<not> int_isspace c"
  by (auto simp: is_digit_def int_isspace_def Let_def)

lemma digit_not_sign: "is_digit c \<Longrightarrow> c \<noteq> CHR ''-'' \<and> c \<noteq> CHR ''+''"
  by (auto simp: is_digit_def)

lemma int_strip_id:
  assumes "s \<noteq> []" "\<not> int_isspace (hd s)" "\<not> int_isspace (last s)"
  shows "rev (dropWhile int_isspace (rev (dropWhile int_isspace s))) = s"
proof -
  have "dropWhile int_isspace s = s" using assms by (simp add: dropWhile_hd_id)
  moreover have "dropWhile int_isspace (rev s) = rev s"
    using assms by (simp add: dropWhile_hd_id hd_rev)
  ultimately show ?thesis by simp
qed

lemma py_int_str_of_nat: "py_int (str_of_nat n) = Some (int n)"
proof -
  obtain c cs where s: "str_of_nat n = c # cs"
    using str_of_nat_nonempty [of n] by (cases "str_of_nat n") auto
  have d: "is_digit c" "is_digit (last (c # cs))"
    using str_of_nat_digits [of n] s last_in_set [of "c # cs"] by auto
  have "rev (dropWhile int_isspace (rev (dropWhile int_isspace (c # cs)))) = c # cs"
    using d by (intro int_strip_id) (auto simp: digit_not_int_space)
  then show ?thesis
    using d(1) digits_go_str_of_nat [of n] digit_not_sign [of c]
    by (simp add: py_int_def s del: digits_go.simps)
qed

lemma py_int_str_of_int: "py_int (str_of_int i) = Some i"
proof (cases "i < 0")
  case False
  then show ?thesis by (simp add: str_of_int_def py_int_str_of_nat)
next
  case True
  let ?s = "CHR ''-'' # str_of_nat (nat (- i))"
  have l: "is_digit (last ?s)"
    using str_of_nat_digits [of "nat (- i)"] str_of_nat_nonempty [of "nat (- i)"] by simp
  have h: "\<not> int_isspace (hd ?s)" by (simp add: int_isspace_def)
  have "\<not> int_isspace (last ?s)" using l by (rule digit_not_int_space)
  with h have "rev (dropWhile int_isspace (rev (dropWhile int_isspace ?s))) = ?s"
    by (intro int_strip_id) simp_all
  moreover have "str_of_int i = ?s" using True by (simp add: str_of_int_def)
  ultimately have "rev (dropWhile int_isspace (rev (dropWhile int_isspace (str_of_int i)))) = ?s"
    by simp
  then have "py_int (str_of_int i) = map_option (\<lambda>n. - int n) (digits_go 0 False (str_of_nat (nat (- i))))"
    by (simp add: py_int_def)
  then show ?thesis using True by (simp add: digits_go_str_of_nat)
qed

lemma safe_int_PInt: "safe_int (PInt i) = Some i"
  by (simp add: safe_int_def py_int_str_of_int)


section \<open>Game-score parsing\<close>

text \<open>Each loop appends, in input order, one record for every token its test accepts and
  nothing for the others; the number it stores is the position of the token, counted from 1
  by \<^const>\<open>fms_loop\<close> and \<^const>\<open>parse_games_loop\<close>, and that position plus one by
  \<^const>\<open>fac_loop\<close>.\<close>

lemma fms_loop_map_filter:
  "fms_loop i ts acc = acc @ List.map_filter (\<lambda>(k, t). parse_score_token k t) (zip [i ..< i + length ts] ts)"
proof (induction ts arbitrary: i acc)
  case Nil
  then show ?case by (simp add: List.map_filter_simps)
next
  case (Cons t ts)
  have "[i ..< i + length (t # ts)] = i # [Suc i ..< Suc i + length ts]"
    by (simp add: upt_rec)
  then show ?case
    by (simp add: Cons.IH List.map_filter_simps split: option.split)
qed

lemma fac_loop_map_filter:
  "fac_loop i ts acc = acc @ List.map_filter (\<lambda>(k, t). parse_score_token (k + 1) t) (zip [i ..< i + length ts] ts)"
proof (induction ts arbitrary: i acc)
  case Nil
  then show ?case by (simp add: List.map_filter_simps)
next
  case (Cons t ts)
  have "[i ..< i + length (t # ts)] = i # [Suc i ..< Suc i + length ts]"
    by (simp add: upt_rec)
  then show ?case
    by (simp add: Cons.IH List.map_filter_simps split: option.split)
qed

lemma parse_games_loop_map_filter:
  "parse_games_loop i ts acc = acc @ List.map_filter (\<lambda>(k, t). parse_games_token k t) (zip [i ..< i + length ts] ts)"
proof (induction ts arbitrary: i acc)
  case Nil
  then show ?case by (simp add: List.map_filter_simps)
next
  case (Cons t ts)
  have "[i ..< i + length (t # ts)] = i # [Suc i ..< Suc i + length ts]"
    by (simp add: upt_rec)
  then show ?case
    by (simp add: Cons.IH List.map_filter_simps split: option.split)
qed

lemma parse_score_token_number:
  "parse_score_token k t = Some g \<Longrightarrow> game_number g = k"
  by (auto simp: parse_score_token_def split: if_splits list.splits option.splits)

lemma parse_score_token_shift:
  "parse_score_token (Suc k) t = map_option (\<lambda>g. g\<lparr>game_number := game_number g + 1\<rparr>) (parse_score_token k t)"
  by (auto simp: parse_score_token_def split: if_splits list.splits option.splits)

lemma fac_loop_shift:
  "fac_loop i ts (map (\<lambda>g. g\<lparr>game_number := game_number g + 1\<rparr>) acc) =
     map (\<lambda>g. g\<lparr>game_number := game_number g + 1\<rparr>) (fms_loop i ts acc)"
proof (induction ts arbitrary: i acc)
  case Nil
  then show ?case by simp
next
  case (Cons t ts)
  show ?case
  proof (cases "parse_score_token i t")
    case None
    then show ?thesis using Cons.IH [of "Suc i" acc] by (simp add: parse_score_token_shift)
  next
    case (Some g)
    then show ?thesis using Cons.IH [of "Suc i" "acc @ [g]"] by (simp add: parse_score_token_shift)
  qed
qed

lemma fac_off_by_one:
  "fac_parse_game_scores s = map (\<lambda>g. g\<lparr>game_number := game_number g + 1\<rparr>) (fms_parse_game_scores s)"
  using fac_loop_shift [of 1 "py_split (py_strip s)" "[]"]
  by (simp add: fac_parse_game_scores_def fms_parse_game_scores_def)

lemma fms_parse_game_scores_positions:
  "fms_parse_game_scores s =
     List.map_filter (\<lambda>(k, t). parse_score_token k t)
       (zip [1 ..< 1 + length (py_split (py_strip s))] (py_split (py_strip s)))"
  by (simp add: fms_parse_game_scores_def fms_loop_map_filter)

lemma parse_games_positions:
  "parse_games (PStr s) =
     Inr (List.map_filter (\<lambda>(k, t). parse_games_token k t)
       (zip [1 ..< 1 + length (py_split (py_strip s))] (py_split (py_strip s))))"
  by (simp add: parse_games_def parse_games_loop_map_filter py_split_def List.map_filter_simps)

text \<open>
  \<^bold>\<open>Claim C1.\<close> For a string of space-separated \<^verbatim>\<open>a:b\<close> tokens each of the three parsers
  yields one record per valid token, in order, skipping malformed tokens, and the
  \<^verbatim>\<open>game_number\<close> of a record is the 1-based position of its token.

  \<^const>\<open>fms_parse_game_scores\<close> and \<^const>\<open>parse_games\<close> do so (the two lemmas above).
  \<^const>\<open>fac_parse_game_scores\<close> enumerates from 1 and stores \<^verbatim>\<open>i + 1\<close>: on every input its
  records are those of \<^const>\<open>fms_parse_game_scores\<close> with each number one too high
  (\<open>fac_off_by_one\<close>), so the first game of \<^verbatim>\<open>"11:9 8:11"\<close> is numbered 2.
\<close>

theorem fac_numbering_from_two:
  "fac_parse_game_scores ''11:9 8:11'' =
     [\<lparr>game_number = 2, player_score = 11, opponent_score = 9\<rparr>,
      \<lparr>game_number = 3, player_score = 8, opponent_score = 11\<rparr>]
   \<and> fms_parse_game_scores ''11:9 8:11'' =
     [\<lparr>game_number = 1, player_score = 11, opponent_score = 9\<rparr>,
      \<lparr>game_number = 2, player_score = 8, opponent_score = 11\<rparr>]"
  by code_simp

section \<open>Name normalisation\<close>

lemma isupper_has_alpha: "py_isupper s \<Longrightarrow> \<exists>c \<in> set s. char_isalpha c"
  by (auto simp: py_isupper_def char_isalpha_def)

lemma normalize_name_single:
  assumes "is_token t"
  shows "normalize_name t = Inr (None, Some t, Some t)"
  using assms by (simp add: normalize_name_def py_strip_token py_split_token Let_def is_token_def)

lemma normalize_name_surname_first:
  assumes "is_token s" "is_token f" "py_isupper s" "s \<noteq> f"
  shows "normalize_name (s @ CHR '' '' # f) = Inr (Some f, Some s, Some (s @ CHR '' '' # f))"
proof -
  have ne: "s \<noteq> []" "f \<noteq> []" using assms by (auto simp: is_token_def)
  have caps: "py_isupper s \<and> (\<exists>c \<in> set s. char_isalpha c)"
    using assms(3) isupper_has_alpha by blast
  show ?thesis
    using ne caps assms(4)
    by (simp add: normalize_name_def py_strip_two_tokens [OF assms(1,2)]
        py_split_two_tokens [OF assms(1,2)] Let_def or_none_def)
qed

lemma parse_player_name_single:
  assumes "is_token t"
  shows "parse_player_name t = (Some t, None)"
  using assms by (simp add: parse_player_name_def py_strip_token py_split_token is_token_def)

lemma parse_player_name_surname_first:
  assumes "is_token s" "is_token f"
  shows "parse_player_name (s @ CHR '' '' # f) = (Some f, Some s)"
  by (simp add: parse_player_name_def py_strip_two_tokens [OF assms] py_split_two_tokens [OF assms])

text \<open>
  \<^bold>\<open>Claim C2.\<close> In both normalisers a two-token name \<^verbatim>\<open>"SURNAME Firstname"\<close> gives the first
  name \<^verbatim>\<open>Firstname\<close> and the last name \<^verbatim>\<open>SURNAME\<close>, and a single token gives no first
  name and the token as last name.

  The second half fails for \<^const>\<open>parse_player_name\<close>, whose branch for one word returns
  the word as the first name and no last name.
\<close>

theorem parse_player_name_single_token_counterexample:
  "parse_player_name ''WANG'' = (Some ''WANG'', None) \<and>
   parse_player_name ''WANG'' \<noteq> (None, Some ''WANG'')"
  by code_simp

text \<open>
  \<^bold>\<open>Claim C2, amended.\<close> For a surname \<open>s\<close> in capitals and a different first name \<open>f\<close>,
  both tokens, \<^const>\<open>normalize_name\<close> and \<^const>\<open>parse_player_name\<close> take the first name \<open>f\<close>
  and the last name \<open>s\<close> from \<^verbatim>\<open>"s f"\<close>. For a single token \<open>t\<close>, \<^const>\<open>normalize_name\<close>
  gives no first name and the last name \<open>t\<close>, while \<^const>\<open>parse_player_name\<close> gives the
  first name \<open>t\<close> and no last name.
\<close>

theorem name_normalizers:
  assumes "is_token s" and "is_token f" and "py_isupper s" and "s \<noteq> f" and "is_token t"
  shows "normalize_name (s @ CHR '' '' # f) = Inr (Some f, Some s, Some (s @ CHR '' '' # f))
       \<and> normalize_name t = Inr (None, Some t, Some t)
       \<and> parse_player_name (s @ CHR '' '' # f) = (Some f, Some s)
       \<and> parse_player_name t = (Some t, None)"
  using assms
  by (simp add: normalize_name_surname_first normalize_name_single
      parse_player_name_surname_first parse_player_name_single)

theorem name_normalizers_witness:
  "is_token ''WANG'' \<and> is_token ''Chuqin'' \<and> py_isupper ''WANG'' \<and> ''WANG'' \<noteq> ''Chuqin''
   \<and> is_token ''BOLL''
   \<and> normalize_name ''WANG Chuqin'' = Inr (Some ''Chuqin'', Some ''WANG'', Some ''WANG Chuqin'')
   \<and> normalize_name ''BOLL'' = Inr (None, Some ''BOLL'', Some ''BOLL'')
   \<and> parse_player_name ''WANG Chuqin'' = (Some ''Chuqin'', Some ''WANG'')
   \<and> parse_player_name ''BOLL'' = (Some ''BOLL'', None)"
proof -
  have h: "is_token ''WANG''" "is_token ''Chuqin''" "py_isupper ''WANG''"
      "''WANG'' \<noteq> ''Chuqin''" "is_token ''BOLL''"
    by (simp_all add: is_token_def py_isspace_def py_isupper_def char_isupper_def char_islower_def)
  show ?thesis
    using h name_normalizers [OF h] by simp
qed

section \<open>Winner inference\<close>

lemma game_dict_points:
  "dict_get (game_dict i a x) ''a_points'' = PInt a"
  "dict_get (game_dict i a x) ''x_points'' = PInt x"
  by (simp_all add: dict_get_def game_dict_def)

lemma compute_set_score_loop_counts:
  "compute_set_score_loop (map (\<lambda>(i, a, x). game_dict i a x) ps) (a0, x0) =
     (a0 + games_won_a ps, x0 + games_won_x ps)"
proof (induction ps arbitrary: a0 x0)
  case Nil
  then show ?case by (simp add: games_won_a_def games_won_x_def)
next
  case (Cons p ps)
  obtain i a x where p: "p = (i, a, x)" by (cases p) auto
  show ?case
    using Cons.IH [of "a0 + 1" x0] Cons.IH [of a0 "x0 + 1"] Cons.IH [of a0 x0]
    by (simp add: p game_dict_points safe_int_PInt games_won_a_def games_won_x_def)
qed

lemma compute_set_score_counts:
  "compute_set_score (map (\<lambda>(i, a, x). game_dict i a x) ps) = (games_won_a ps, games_won_x ps)"
  by (simp add: compute_set_score_def compute_set_score_loop_counts)

lemma parse_games_token_dict:
  "parse_games_token i t = Some g \<Longrightarrow> \<exists>a x. g = game_dict i a x"
  by (auto simp: parse_games_token_def split: if_splits prod.splits option.splits)

lemma parse_games_loop_dicts:
  "\<exists>qs. parse_games_loop i ts (map (\<lambda>(i, a, x). game_dict i a x) ps) =
          map (\<lambda>(i, a, x). game_dict i a x) (ps @ qs)"
proof (induction ts arbitrary: i ps)
  case Nil
  show ?case by (rule exI [of _ "[]"]) simp
next
  case (Cons t ts)
  show ?case
  proof (cases "parse_games_token i t")
    case None
    then show ?thesis using Cons.IH [of "Suc i" ps] by simp
  next
    case (Some g)
    then obtain a x where g: "g = game_dict i a x" using parse_games_token_dict by blast
    obtain qs where "parse_games_loop (Suc i) ts (map (\<lambda>(i, a, x). game_dict i a x) (ps @ [(i, a, x)])) =
          map (\<lambda>(i, a, x). game_dict i a x) ((ps @ [(i, a, x)]) @ qs)"
      using Cons.IH [of "Suc i" "ps @ [(i, a, x)]"] by blast
    then show ?thesis using Some g by (intro exI [of _ "(i, a, x) # qs"]) simp
  qed
qed

lemma parse_games_dicts:
  assumes "parse_games v = Inr gs"
  shows "\<exists>ps. gs = map (\<lambda>(i, a, x). game_dict i a x) ps"
proof -
  obtain s where s: "or_empty_strip v = Inr s"
    using assms by (auto simp: parse_games_def split: sum.splits)
  show ?thesis
  proof (cases "s = []")
    case True
    then have "gs = []" using assms s by (simp add: parse_games_def)
    then show ?thesis by (intro exI [of _ "[]"]) simp
  next
    case False
    then have "gs = parse_games_loop 1 (py_split s) (map (\<lambda>(i, a, x). game_dict i a x) [])"
      using assms s by (simp add: parse_games_def)
    then show ?thesis using parse_games_loop_dicts [of 1 "py_split s" "[]"] by auto
  qed
qed

text \<open>
  \<^bold>\<open>Claim C3.\<close> For every list of per-game point pairs, \<^const>\<open>compute_set_score\<close> followed by
  the inference of \<^const>\<open>row_to_match\<close> names the side that won strictly more games, and
  names nobody on a tie.

  The inference is also guarded by \<^verbatim>\<open>(a_id or x_id)\<close>: a row whose games A wins 1 to 0 but
  which carries no player identifier gets no inferred winner.
\<close>

theorem winner_without_ids_counterexample:
  "row_to_match [(''vw_matches___id'', PStr ''7''), (''vw_matches___games_raw'', PStr ''11:9'')] =
     Inr \<lparr>m_match_id = ''7'', m_year = None, m_tournament = PNone, m_event = PNone,
          m_stage = PNone, m_round = PNone, m_walkover = False, m_winner_raw = None,
          m_winner_inferred = None, m_final_sets = (1, 0),
          m_games = [game_dict 1 11 9],
          m_player_a = \<lparr>ittf_id = None, name = None, association = None\<rparr>,
          m_player_x = \<lparr>ittf_id = None, name = None, association = None\<rparr>\<rparr>"
  by code_simp

text \<open>
  \<^bold>\<open>Claim C3, amended.\<close> Whenever \<^const>\<open>row_to_match\<close> returns, its games are the parsed
  point pairs, \<^verbatim>\<open>final_sets\<close> counts the games each side won, and, if the row has a
  non-empty identifier for A or for X, the inferred winner is the side that won strictly
  more games and there is none on a tie; without any identifier there is none.
\<close>

theorem winner_inference:
  assumes "row_to_match row = Inr m"
  shows "\<exists>ps. m_games m = map (\<lambda>(i, a, x). game_dict i a x) ps \<and>
           m_final_sets m = (games_won_a ps, games_won_x ps) \<and>
           m_winner_inferred m =
             (if opt_truthy (ittf_id (m_player_a m)) \<or> opt_truthy (ittf_id (m_player_x m))
              then (if games_won_a ps > games_won_x ps then Some ''A''
                    else if games_won_x ps > games_won_a ps then Some ''X''
                    else None)
              else None)"
proof -
  obtain gs where gs: "parse_games (py_or (dict_get row ''vw_matches___games_raw'') (PStr [])) = Inr gs"
    and m: "m_games m = gs" "m_final_sets m = compute_set_score gs"
      "m_winner_inferred m =
         (if fst (compute_set_score gs) \<noteq> snd (compute_set_score gs)
             \<and> (opt_truthy (ittf_id (m_player_a m)) \<or> opt_truthy (ittf_id (m_player_x m)))
          then Some (if fst (compute_set_score gs) > snd (compute_set_score gs) then ''A'' else ''X'')
          else None)"
    using assms
    by (auto simp: row_to_match_def bind_err_def Let_def split: sum.splits prod.splits)
  obtain ps where ps: "gs = map (\<lambda>(i, a, x). game_dict i a x) ps"
    using parse_games_dicts [OF gs] by blast
  show ?thesis
    using m by (intro exI [of _ ps]) (auto simp: ps compute_set_score_counts)
qed

theorem winner_inference_witness:
  "row_to_match [(''vw_matches___player_a_id'', PStr ''121404''),
                 (''vw_matches___games_raw'', PStr ''11:9 8:11 11:7'')]
     = Inr \<lparr>m_match_id = [], m_year = None, m_tournament = PNone, m_event = PNone,
             m_stage = PNone, m_round = PNone, m_walkover = False, m_winner_raw = None,
             m_winner_inferred = Some ''A'', m_final_sets = (2, 1),
             m_games = [game_dict 1 11 9, game_dict 2 8 11, game_dict 3 11 7],
             m_player_a = \<lparr>ittf_id = Some ''121404'', name = None, association = None\<rparr>,
             m_player_x = \<lparr>ittf_id = None, name = None, association = None\<rparr>\<rparr>
   \<and> (\<exists>ps. [game_dict 1 11 9, game_dict 2 8 11, game_dict 3 11 7] =
               map (\<lambda>(i, a, x). game_dict i a x) ps
           \<and> games_won_a ps = 2 \<and> games_won_x ps = 1 \<and> games_won_a ps > games_won_x ps)"
proof -
  let ?row = "[(''vw_matches___player_a_id'', PStr ''121404''),
               (''vw_matches___games_raw'', PStr ''11:9 8:11 11:7'')]"
  let ?m = "\<lparr>m_match_id = [], m_year = None, m_tournament = PNone, m_event = PNone,
             m_stage = PNone, m_round = PNone, m_walkover = False, m_winner_raw = None,
             m_winner_inferred = Some ''A'', m_final_sets = (2, 1),
             m_games = [game_dict 1 11 9, game_dict 2 8 11, game_dict 3 11 7],
             m_player_a = \<lparr>ittf_id = Some ''121404'', name = None, association = None\<rparr>,
             m_player_x = \<lparr>ittf_id = None, name = None, association = None\<rparr>\<rparr>"
  have h: "row_to_match ?row = Inr ?m" by code_simp
  from winner_inference [OF h] obtain ps where
    "m_games ?m = map (\<lambda>(i, a, x). game_dict i a x) ps"
    "m_final_sets ?m = (games_won_a ps, games_won_x ps)" by blast
  then have "[game_dict 1 11 9, game_dict 2 8 11, game_dict 3 11 7] =
               map (\<lambda>(i, a, x). game_dict i a x) ps
           \<and> games_won_a ps = 2 \<and> games_won_x ps = 1 \<and> games_won_a ps > games_won_x ps"
    by simp
  then have "\<exists>ps. [game_dict 1 11 9, game_dict 2 8 11, game_dict 3 11 7] =
               map (\<lambda>(i, a, x). game_dict i a x) ps
           \<and> games_won_a ps = 2 \<and> games_won_x ps = 1 \<and> games_won_a ps > games_won_x ps"
    by (rule exI)
  with h show ?thesis by (rule conjI)
qed

section \<open>Failed requests\<close>

lemma match_step_failed:
  "match_api w mid = Inl e \<Longrightarrow> match_step w st mid = st\<lparr>error_log := error_log st @ [(mid, e)]\<rparr>"
  by (simp add: match_step_def)

lemma match_step_same_data:
  "same_data s t \<Longrightarrow> same_data (match_step w s mid) (match_step w t mid)"
  by (auto simp: same_data_def match_step_def Let_def split: sum.splits prod.splits option.splits)

lemma match_loop_same_data:
  "same_data s t \<Longrightarrow> same_data (match_loop w s ids) (match_loop w t (filter (fetched w) ids))"
proof (induction ids arbitrary: s t)
  case Nil
  then show ?case by simp
next
  case (Cons mid ids)
  show ?case
  proof (cases "match_api w mid")
    case (Inl e)
    then have "same_data (match_step w s mid) t"
      using Cons.prems by (simp add: match_step_failed same_data_def)
    then show ?thesis using Cons.IH Inl by (simp add: fetched_def)
  next
    case (Inr d)
    then show ?thesis
      using Cons.IH [OF match_step_same_data [OF Cons.prems]] by (simp add: fetched_def)
  qed
qed

lemma match_step_log:
  "\<exists>l. error_log (match_step w st mid) = error_log st @ l \<and>
        (case match_api w mid of Inl e \<Rightarrow> l = [(mid, e)] | Inr d \<Rightarrow> True)"
  by (auto simp: match_step_def Let_def split: sum.splits prod.splits option.splits)

lemma fetch_matches_failure:
  "srv (length reqs) \<lparr>req_year = yr, req_limit = limit, req_offset = None\<rparr> = Failure e \<Longrightarrow>
     fst (fetch_matches srv reqs yr limit) = []"
  by (simp add: fetch_matches_def Let_def)

lemma scrape_loop_failure:
  "srv (length reqs) \<lparr>req_year = yr, req_limit = 100, req_offset = None\<rparr> = Failure e \<Longrightarrow>
     \<exists>reqs'. scrape_loop parse srv yr mx reqs all = Inr (all, reqs')"
  by (subst scrape_loop.simps) (simp add: fetch_matches_def Let_def)

lemma iter_pages_failure:
  "srv (length reqs) \<lparr>req_year = yr, req_limit = page_size cfg, req_offset = Some offset\<rparr> = Failure e \<Longrightarrow>
     iter_pages srv cfg yr (Suc k) seen offset stagnant out reqs = Inl e"
  by (simp add: fetch_fabrik_page_def Let_def)

lemma master_main_failure:
  assumes "srv 0 \<lparr>req_year = yr, req_limit = page_size cfg, req_offset = Some 0\<rparr> = Failure e"
    and "0 < max_pages_per_year cfg"
  shows "master_main srv cfg clock (yr # yrs) = Inl e"
proof -
  obtain k where k: "nat (max_pages_per_year cfg) = Suc k"
    using assms(2) by (cases "nat (max_pages_per_year cfg)") auto
  have "iter_fabrik_matches srv [] cfg yr = Inl e"
    using assms(1) by (simp add: iter_fabrik_matches_def k iter_pages_failure del: iter_pages.simps)
  then show ?thesis by (simp add: master_main_def)
qed

lemma gameday_loop_failure:
  "schedule_page w gameday = Inl e \<Longrightarrow> gameday_loop w find_ids (gameday # rest) ids = Inl e"
  by simp

text \<open>
  \<^bold>\<open>Claim C4.\<close> In every script's fetch loop an exception raised by a single request is
  caught inside the loop, logged and treated as no data for that item, so that no single
  failed request ends the run.

  \<^verbatim>\<open>master_scrape.py\<close> has no handler on the way from \<^verbatim>\<open>fetch_fabrik_page\<close> through
  \<^verbatim>\<open>iter_fabrik_matches\<close> to \<^verbatim>\<open>main\<close>: when the list fails for 2025, the run over 2025 and
  2024 ends with that exception.
\<close>

theorem master_run_aborted_counterexample:
  "master_main failing_2025_server example_config example_clock [2025, 2024] = Inl HTTPError"
  by code_simp

text \<open>
  \<^bold>\<open>Claim C4, amended.\<close> In the match loop of \<^verbatim>\<open>scrape_ttbl_enhanced.py\<close> a request that
  raises is caught in the loop and logged, the state is otherwise unchanged, and the loop
  goes on: its statistics and files are those of the run over the matches whose request
  succeeded. \<^verbatim>\<open>fetch_matches\<close> of \<^verbatim>\<open>fabrik_match_scraper.py\<close> and
  \<^verbatim>\<open>comprehensive_collector.py\<close> turn a failed request into an empty page, on which
  \<^verbatim>\<open>scrape_year\<close> and \<^verbatim>\<open>scrape_matches_by_year\<close> return normally. In \<^verbatim>\<open>master_scrape.py\<close>
  the exception of a failed page request is not caught and ends the run.
  (The game-day loop of \<^verbatim>\<open>scrape_ttbl_enhanced.py\<close>, which calls \<^verbatim>\<open>fetch_url\<close> outside any
  \<^verbatim>\<open>try\<close>, is not part of this statement; see \<open>gameday_loop_failure\<close>.)
\<close>

theorem request_failures:
  assumes "match_api w mid = Inl e"
    and "srv (length reqs) \<lparr>req_year = yr, req_limit = 100, req_offset = None\<rparr> = Failure e1"
    and "srv2 0 \<lparr>req_year = yr2, req_limit = page_size cfg, req_offset = Some 0\<rparr> = Failure e2"
    and "0 < max_pages_per_year cfg"
  shows "match_step w st mid = st\<lparr>error_log := error_log st @ [(mid, e)]\<rparr>
       \<and> same_data (match_loop w st ids) (match_loop w st (filter (fetched w) ids))
       \<and> fst (fetch_matches srv reqs yr 100) = []
       \<and> (\<exists>reqs'. scrape_year srv reqs yr mx = Inr ([], reqs'))
       \<and> (\<exists>reqs'. scrape_matches_by_year srv reqs yr mx = Inr ([], reqs'))
       \<and> master_main srv2 cfg clock (yr2 # yrs) = Inl e2"
proof -
  have "same_data st st" by (simp add: same_data_def)
  then have "same_data (match_loop w st ids) (match_loop w st (filter (fetched w) ids))"
    by (rule match_loop_same_data)
  then show ?thesis
    using match_step_failed [OF assms(1)] assms(2)
      fetch_matches_failure [of srv reqs yr 100 e1]
      scrape_loop_failure [of srv reqs yr e1]
      master_main_failure [of srv2 yr2 cfg e2] assms(3,4)
    by (simp add: scrape_year_def scrape_matches_by_year_def)
qed

theorem request_failures_witness:
  "match_api example_world ''m1'' = Inl URLError
   \<and> failing_2025_server (length ([] :: request list))
         \<lparr>req_year = 2025, req_limit = 100, req_offset = None\<rparr> = Failure HTTPError
   \<and> failing_2025_server 0
         \<lparr>req_year = 2025, req_limit = page_size example_config, req_offset = Some 0\<rparr> = Failure HTTPError
   \<and> 0 < max_pages_per_year example_config
   \<and> match_step example_world empty_state ''m1'' =
         empty_state\<lparr>error_log := error_log empty_state @ [(''m1'', URLError)]\<rparr>
   \<and> same_data (match_loop example_world empty_state [''m1'', ''m2''])
         (match_loop example_world empty_state (filter (fetched example_world) [''m1'', ''m2'']))
   \<and> fst (fetch_matches failing_2025_server [] 2025 100) = []
   \<and> (\<exists>reqs'. scrape_year failing_2025_server [] 2025 5 = Inr ([], reqs'))
   \<and> (\<exists>reqs'. scrape_matches_by_year failing_2025_server [] 2025 5 = Inr ([], reqs'))
   \<and> master_main failing_2025_server example_config example_clock [2025, 2024] = Inl HTTPError"
proof -
  have h1: "match_api example_world ''m1'' = Inl URLError"
    by (simp add: example_world_def)
  have h2: "failing_2025_server (length ([] :: request list))
         \<lparr>req_year = 2025, req_limit = 100, req_offset = None\<rparr> = Failure HTTPError"
    by (simp add: failing_2025_server_def)
  have h3: "failing_2025_server 0
         \<lparr>req_year = 2025, req_limit = page_size example_config, req_offset = Some 0\<rparr> = Failure HTTPError"
    by (simp add: failing_2025_server_def)
  have h4: "0 < max_pages_per_year example_config"
    by (simp add: example_config_def)
  note c = request_failures
         [where w = example_world and mid = "''m1''" and e = URLError
            and srv = failing_2025_server and reqs = "[]" and yr = 2025 and ?e1.0 = HTTPError
            and ?srv2.0 = failing_2025_server and ?yr2.0 = 2025 and cfg = example_config
            and ?e2.0 = HTTPError and st = empty_state and ids = "[''m1'', ''m2'']" and mx = 5
            and clock = example_clock and yrs = "[2024]", OF h1 h2 h3 h4]
  from h1 h2 h3 h4 c show ?thesis by (iprover intro: conjI)
qed

section \<open>Retries\<close>

text \<open>While the attempts are retryable the loop goes on, sleeping \<open>backoff k\<close> after attempt
  \<open>k\<close>: twice as long after every attempt. It returns \<^verbatim>\<open>None\<close> after \<^verbatim>\<open>max_retries\<close>
  such attempts, and at once on a status 401, 403 or 404.\<close>

lemma retry_step_retryable:
  "retryable (world k) \<Longrightarrow>
     retry_loop world (k # ks) n sl = retry_loop world ks (n + 1) (sl @ [backoff k (world k)])"
  by (auto simp: retryable_def backoff_def Let_def mult_less_0_iff
      split: attempt.splits option.splits if_splits)

lemma retry_loop_retryable:
  "\<forall>k \<in> set ks. retryable (world k) \<Longrightarrow>
     retry_loop world (ks @ rest) n sl =
       retry_loop world rest (n + length ks) (sl @ map (\<lambda>k. backoff k (world k)) ks)"
proof (induction ks arbitrary: n sl)
  case Nil
  then show ?case by simp
next
  case (Cons k ks)
  then show ?case
    by (simp add: retry_step_retryable del: retry_loop.simps)
qed

lemma request_with_retry_exhausted:
  assumes "\<forall>k < nat max_retries. retryable (world k)"
  shows "request_with_retry world max_retries =
           \<lparr>outcome = Inr None, requests_made = nat max_retries,
            slept = map (\<lambda>k. backoff k (world k)) [0 ..< nat max_retries]\<rparr>"
  using assms retry_loop_retryable [of "[0 ..< nat max_retries]" world "[]" 0 "[]"]
  by (simp add: request_with_retry_def)

lemma request_with_retry_terminal:
  assumes "j < nat max_retries" and "\<forall>k < j. retryable (world k)"
    and "world j = Responds s h b" and "s \<in> {401, 403, 404}"
  shows "request_with_retry world max_retries =
           \<lparr>outcome = Inr None, requests_made = j + 1,
            slept = map (\<lambda>k. backoff k (world k)) [0 ..< j]\<rparr>"
proof -
  have "[0 ..< nat max_retries] = [0 ..< j] @ j # [Suc j ..< nat max_retries]"
  proof -
    have "[0 ..< nat max_retries] = [0 ..< j] @ [j ..< nat max_retries]"
      using assms(1) upt_add_eq_append [of 0 j "nat max_retries - j"] by simp
    then show ?thesis using assms(1) by (simp add: upt_conv_Cons)
  qed
  then have "request_with_retry world max_retries =
      retry_loop world (j # [Suc j ..< nat max_retries]) j (map (\<lambda>k. backoff k (world k)) [0 ..< j])"
    using assms(2) retry_loop_retryable [of "[0 ..< j]" world "j # [Suc j ..< nat max_retries]" 0 "[]"]
    by (simp add: request_with_retry_def)
  then show ?thesis using assms(3,4) by auto
qed

lemma request_with_retry_success:
  assumes "j < nat max_retries" and "\<forall>k < j. retryable (world k)"
    and "world j = Responds 200 h b"
  shows "request_with_retry world max_retries =
           \<lparr>outcome = Inr b, requests_made = j + 1,
            slept = map (\<lambda>k. backoff k (world k)) [0 ..< j]\<rparr>"
proof -
  have "[0 ..< nat max_retries] = [0 ..< j] @ j # [Suc j ..< nat max_retries]"
  proof -
    have "[0 ..< nat max_retries] = [0 ..< j] @ [j ..< nat max_retries]"
      using assms(1) upt_add_eq_append [of 0 j "nat max_retries - j"] by simp
    then show ?thesis using assms(1) by (simp add: upt_conv_Cons)
  qed
  then have "request_with_retry world max_retries =
      retry_loop world (j # [Suc j ..< nat max_retries]) j (map (\<lambda>k. backoff k (world k)) [0 ..< j])"
    using assms(2) retry_loop_retryable [of "[0 ..< j]" world "j # [Suc j ..< nat max_retries]" 0 "[]"]
    by (simp add: request_with_retry_def)
  then show ?thesis using assms(3) by auto
qed

text \<open>
  \<^bold>\<open>Claim C5.\<close> For every sequence of responses \<^verbatim>\<open>_request_with_retry\<close> retries with
  exponential backoff on a status 429 and on 5xx, up to \<^verbatim>\<open>max_retries\<close> attempts, returns
  \<^verbatim>\<open>None\<close> at once on 401, 403 and 404, and returns \<^verbatim>\<open>None\<close> when the retries are used up.

  This holds for the sequences in which every 429 carries no \<^verbatim>\<open>Retry-After\<close> or a
  non-negative integer (the three lemmas above). The header may also be an HTTP date;
  \<^verbatim>\<open>int\<close> then raises \<^verbatim>\<open>ValueError\<close>, which the handler for \<^verbatim>\<open>requests.RequestException\<close>
  does not catch: after one request the exception leaves the function, which neither
  retries nor returns \<^verbatim>\<open>None\<close>.
\<close>

theorem retry_after_date_raises:
  "request_with_retry rate_limited_with_date 3 =
     \<lparr>outcome = Inl ValueError, requests_made = 1, slept = []\<rparr>"
  by code_simp

section \<open>Paging through the match list\<close>

text \<open>\<^const>\<open>scrape_loop\<close> sends the same request, without an offset, every time, and
  appends every page it receives: against a server that always answers with the same
  page it returns copies of that page.\<close>

lemma scrape_loop_requests:
  "scrape_loop parse srv yr mx reqs all = Inr (ms, reqs') \<Longrightarrow>
     \<exists>k. reqs' = reqs @ replicate k \<lparr>req_year = yr, req_limit = 100, req_offset = None\<rparr>"
proof (induction parse srv yr mx reqs all rule: scrape_loop.induct)
  case (1 parse srv yr mx reqs all)
  let ?r = "\<lparr>req_year = yr, req_limit = 100, req_offset = None\<rparr>"
  show ?case
  proof (cases "int (length all) < mx")
    case False
    then have "reqs' = reqs" using 1(2) by (simp add: scrape_loop.simps)
    then show ?thesis by (intro exI [of _ 0]) simp
  next
    case True
    obtain page where f: "fetch_matches srv reqs yr 100 = (page, reqs @ [?r])"
      by (simp add: fetch_matches_def Let_def)
    show ?thesis
    proof (cases page)
      case Nil
      then have "reqs' = reqs @ [?r]" using 1(2) True f by (simp add: scrape_loop.simps)
      then show ?thesis by (intro exI [of _ 1]) simp
    next
      case (Cons d ds)
      then obtain new where c: "convert_page parse (d # ds) = Inr new"
        and r: "scrape_loop parse srv yr mx (reqs @ [?r]) (all @ new) = Inr (ms, reqs')"
        using 1(2) True f by (subst (asm) scrape_loop.simps) (auto split: sum.splits)
      from 1(1) [OF True f [symmetric] Cons c r]
      obtain k where "reqs' = (reqs @ [?r]) @ replicate k ?r" by auto
      then show ?thesis by (intro exI [of _ "Suc k"]) (simp add: replicate_app_Cons_same)
    qed
  qed
qed

lemma scrape_loop_no_dedup:
  "scrape_loop parse (\<lambda>n req. Json_list page) yr mx reqs all = Inr (ms, reqs') \<Longrightarrow>
   convert_page parse page = Inr new \<Longrightarrow> page \<noteq> [] \<Longrightarrow> \<exists>k. ms = all @ concat (replicate k new)"
proof (induction parse "\<lambda>(n::nat) (req::request). Json_list page" yr mx reqs all rule: scrape_loop.induct)
  case (1 parse yr mx reqs all)
  show ?case
  proof (cases "int (length all) < mx")
    case False
    then have "ms = all" using 1(2) by (simp add: scrape_loop.simps)
    then show ?thesis by (intro exI [of _ 0]) simp
  next
    case True
    obtain d ds where p: "page = d # ds" using 1(4) by (cases page) auto
    let ?r = "\<lparr>req_year = yr, req_limit = 100, req_offset = None\<rparr>"
    have f: "fetch_matches (\<lambda>n req. Json_list page) reqs yr 100 = (d # ds, reqs @ [?r])"
      by (simp add: fetch_matches_def Let_def p)
    have r: "scrape_loop parse (\<lambda>n req. Json_list page) yr mx (reqs @ [?r]) (all @ new) = Inr (ms, reqs')"
      using 1(2) True f 1(3) p by (subst (asm) scrape_loop.simps) simp
    have c: "convert_page parse (d # ds) = Inr new" using 1(3) p by simp
    from 1(1) [OF True f [symmetric] refl c r 1(3) 1(4)]
    obtain k where "ms = (all @ new) @ concat (replicate k new)" by auto
    then show ?thesis by (intro exI [of _ "Suc k"]) simp
  qed
qed

text \<open>\<^const>\<open>iter_fabrik_matches\<close> asks for the offsets \<open>0\<close>, \<open>page_size\<close>, \<open>2 * page_size\<close>, ...,
  at most \<^verbatim>\<open>max_pages_per_year\<close> of them, and yields no identifier twice.\<close>

lemma page_rows_inv:
  "page_rows its seen nc out = Inr (seen', nc', out') \<Longrightarrow> seen = map row_id out \<Longrightarrow> distinct seen \<Longrightarrow>
     seen' = map row_id out' \<and> distinct seen'"
proof (induction its arbitrary: seen nc out)
  case Nil
  then show ?case by auto
next
  case (Cons it its)
  then obtain r where r: "item_row it = Inr r" by (auto split: sum.splits)
  show ?case
  proof (cases "row_id r = [] \<or> row_id r \<in> set seen")
    case True
    then have "page_rows its seen nc out = Inr (seen', nc', out')"
      using Cons.prems(1) r by (auto simp: row_id_def Let_def split: if_splits)
    then show ?thesis using Cons.IH Cons.prems(2,3) by blast
  next
    case False
    then have "page_rows its (seen @ [row_id r]) (nc + 1) (out @ [r]) = Inr (seen', nc', out')"
      using Cons.prems(1) r by (auto simp: row_id_def Let_def split: if_splits)
    moreover have "seen @ [row_id r] = map row_id (out @ [r])" using Cons.prems(2) by simp
    moreover have "distinct (seen @ [row_id r])" using Cons.prems(3) False by simp
    ultimately show ?thesis using Cons.IH by blast
  qed
qed

lemma iter_pages_inv:
  "iter_pages srv cfg yr k seen offset stagnant out reqs = Inr (out', reqs') \<Longrightarrow>
   seen = map row_id out \<Longrightarrow> distinct seen \<Longrightarrow>
     distinct (map row_id out') \<and>
     (\<exists>n \<le> k. reqs' = reqs @ map (page_request cfg yr offset) [0 ..< n])"
proof (induction k arbitrary: seen offset stagnant out reqs)
  case 0
  then show ?case by simp
next
  case (Suc k)
  let ?req = "page_request cfg yr offset 0"
  obtain rows where f: "fetch_fabrik_page srv reqs cfg yr offset = Inr (rows, reqs @ [?req])"
    using Suc.prems(1)
    by (auto simp: fetch_fabrik_page_def page_request_def Let_def split: sum.splits reply.splits)
  show ?case
  proof (cases "rows = []")
    case True
    then have "out' = out" "reqs' = reqs @ [?req]" using Suc.prems(1) f by simp_all
    then show ?thesis using Suc.prems(2,3) by (auto intro!: exI [of _ 1])
  next
    case False
    then obtain seen1 nc out1 where p: "page_rows rows seen 0 out = Inr (seen1, nc, out1)"
      using Suc.prems(1) f by (auto split: sum.splits)
    have inv: "seen1 = map row_id out1" "distinct seen1"
      using page_rows_inv [OF p Suc.prems(2,3)] by blast+
    from inv have d1: "distinct (map row_id out1)" by metis
    define stag where "stag = (if nc = 0 then stagnant + 1 else 0)"
    show ?thesis
    proof (cases "stag \<ge> 2")
      case True
      then have "out' = out1" "reqs' = reqs @ [?req]"
        using Suc.prems(1) f p False by (simp_all add: stag_def Let_def)
      then show ?thesis using d1 by (auto intro!: exI [of _ 1])
    next
      case False': False
      then have "iter_pages srv cfg yr k seen1 (offset + page_size cfg) stag out1 (reqs @ [?req])
                   = Inr (out', reqs')"
        using Suc.prems(1) f p False by (simp add: stag_def Let_def)
      from Suc.IH [OF this inv]
      obtain n where n: "n \<le> k"
        "reqs' = (reqs @ [?req]) @ map (page_request cfg yr (offset + page_size cfg)) [0 ..< n]"
        and d: "distinct (map row_id out')" by blast
      have "map (page_request cfg yr offset) [0 ..< Suc n] =
              ?req # map (page_request cfg yr (offset + page_size cfg)) [0 ..< n]"
        by (simp add: upt_conv_Cons map_Suc_upt [symmetric] page_request_def algebra_simps
            del: upt_Suc)
      then show ?thesis using n d by (intro conjI exI [of _ "Suc n"]) simp_all
    qed
  qed
qed

lemma iter_fabrik_matches_pages:
  assumes "iter_fabrik_matches srv reqs cfg yr = Inr (rows, reqs')"
  shows "distinct (map row_id rows) \<and>
         (\<exists>n \<le> nat (max_pages_per_year cfg). reqs' = reqs @ map (page_request cfg yr 0) [0 ..< n])"
  using iter_pages_inv [of srv cfg yr "nat (max_pages_per_year cfg)" "[]" 0 0 "[]" reqs rows reqs'] assms
  by (simp add: iter_fabrik_matches_def)

text \<open>
  \<^bold>\<open>Claim C6.\<close> Each of the three paginated loops requests pages of a fixed size at strictly
  increasing offsets, stops on an empty page or on stagnant results, and removes
  duplicates by the match identifier.

  \<^const>\<open>iter_fabrik_matches\<close> does. \<^const>\<open>scrape_year\<close> and \<^const>\<open>scrape_matches_by_year\<close> set
  \<^verbatim>\<open>offset = 0\<close> and never use it: on a list of three matches in pages of two they
  request the first page three times and return its two matches three times, where
  \<^const>\<open>iter_fabrik_matches\<close> requests the offsets 0, 2 and 4 and yields the three matches.
\<close>

theorem scrape_year_repeats_first_page:
  "map_sum id (\<lambda>(ms, reqs). (map match_id ms, map req_offset reqs)) (scrape_year two_page_server [] 2025 5)
     = Inr ([''1'', ''2'', ''1'', ''2'', ''1'', ''2''], [None, None, None])
   \<and> map_sum id (\<lambda>(ms, reqs). (map match_id ms, map req_offset reqs))
        (scrape_matches_by_year two_page_server [] 2025 5)
     = Inr ([''1'', ''2'', ''1'', ''2'', ''1'', ''2''], [None, None, None])
   \<and> map_sum id (\<lambda>(rows, reqs). (map row_id rows, map req_offset reqs))
        (iter_fabrik_matches two_page_server []
           \<lparr>list_id = ''31'', page_size = 2, max_pages_per_year = 500\<rparr> 2025)
     = Inr ([''1'', ''2'', ''3''], [Some 0, Some 2, Some 4])"
  by code_simp

section \<open>Repeated player identifiers\<close>

lemma map_of_snoc_present:
  "map_of d k \<noteq> None \<Longrightarrow> map_of (d @ [(k, v)]) = map_of d"
  by (auto simp: fun_eq_iff map_add_def split: option.splits)

lemma map_of_append_cong:
  "map_of d = map_of d' \<Longrightarrow> map_of (d @ r) = map_of (d' @ r)"
  by simp

lemma in_fst_iff_map_of: "k \<in> fst ` set d \<longleftrightarrow> map_of d k \<noteq> None"
  by (simp add: map_of_eq_None_iff)

lemma extract_player_ids_loop_first:
  "map_of (extract_player_ids_loop ms pl) = map_of (pl @ concat (map match_entries ms))"
proof (induction ms arbitrary: pl)
  case Nil
  then show ?case by simp
next
  case (Cons m ms)
  define p1 where
    "p1 = (if player_id m \<notin> fst ` set pl then pl @ [(player_id m, player_name m)] else pl)"
  define p2 where
    "p2 = (case opponent_id m of None \<Rightarrow> p1
           | Some oid \<Rightarrow> if oid \<noteq> [] \<and> oid \<notin> fst ` set p1 then p1 @ [(oid, opponent_name m)] else p1)"
  define tl_entries where
    "tl_entries = (case opponent_id m of None \<Rightarrow> []
           | Some oid \<Rightarrow> if oid \<noteq> [] then [(oid, opponent_name m)] else [])"
  have p1: "map_of p1 = map_of (pl @ [(player_id m, player_name m)])"
    unfolding p1_def by (simp add: in_fst_iff_map_of map_of_snoc_present del: map_of_append)
  have p2: "map_of p2 = map_of (p1 @ tl_entries)"
  proof (cases "opponent_id m")
    case None
    then show ?thesis by (simp add: p2_def tl_entries_def)
  next
    case (Some oid)
    show ?thesis
    proof (cases "oid \<noteq> [] \<and> oid \<in> fst ` set p1")
      case True
      then have "map_of p1 oid \<noteq> None" by (simp add: in_fst_iff_map_of)
      then have "map_of (p1 @ [(oid, opponent_name m)]) = map_of p1" by (rule map_of_snoc_present)
      then show ?thesis using True Some by (simp add: p2_def tl_entries_def del: map_of_append)
    next
      case False
      then show ?thesis using Some by (auto simp: p2_def tl_entries_def)
    qed
  qed
  have "map_of (p1 @ tl_entries) = map_of ((pl @ [(player_id m, player_name m)]) @ tl_entries)"
    using p1 by (rule map_of_append_cong)
  then have "map_of p2 = map_of (pl @ match_entries m)"
    using p2 by (simp add: match_entries_def tl_entries_def del: map_of_append)
  then have "map_of (p2 @ concat (map match_entries ms)) =
        map_of ((pl @ match_entries m) @ concat (map match_entries ms))"
    by (rule map_of_append_cong)
  moreover have "extract_player_ids_loop (m # ms) pl = extract_player_ids_loop ms p2"
    unfolding p2_def p1_def by (simp add: Let_def)
  ultimately show ?case
    using Cons.IH [of p2] by (simp del: map_of_append extract_player_ids_loop.simps)
qed

lemma extract_player_ids_first:
  "map_of (extract_player_ids ms) = map_of (concat (map match_entries ms))"
  using extract_player_ids_loop_first [of ms "[]"] by (simp add: extract_player_ids_def)

lemma unique_players_loop_first:
  "map_of (unique_players_loop ps d) = map_of (d @ concat (map entry_key ps))"
proof (induction ps arbitrary: d)
  case Nil
  then show ?case by simp
next
  case (Cons p ps)
  let ?d1 = "if truthy (pe_id p) \<and> map_of d (py_key (pe_id p)) = None
             then d @ [(py_key (pe_id p), p)] else d"
  have "map_of ?d1 = map_of (d @ entry_key p)"
    by (auto simp: entry_key_def map_of_snoc_present simp del: map_of_append)
  then have "map_of (?d1 @ concat (map entry_key ps)) = map_of ((d @ entry_key p) @ concat (map entry_key ps))"
    by (rule map_of_append_cong)
  then show ?case using Cons.IH [of ?d1] by (simp del: map_of_append)
qed

lemma unique_players_first:
  "map_of (unique_players ps) = map_of (concat (map entry_key ps))"
  using unique_players_loop_first [of ps "[]"] by (simp add: unique_players_def)

lemma map_of_map_replace:
  "map_of (map (\<lambda>(k', v'). if k' = k then (k', v) else (k', v')) d) x =
     (if x = k then (if map_of d k = None then None else Some v) else map_of d x)"
  by (induction d) auto

lemma map_of_od_update: "map_of (od_update k v d) = (map_of d)(k \<mapsto> v)"
  by (auto simp: od_update_def map_of_map_replace fun_eq_iff map_add_def split: option.splits)

lemma upsert_player_existing:
  assumes "map_of pl pid = Some r" and "pid \<noteq> []"
    and "opt_truthy (full_name r)" and "opt_truthy (nationality r)"
  shows "upsert_player now pl (Some pid) name_arg association_arg =
           Inr (od_update pid
                  (r\<lparr>last_seen := now,
                     sources := (if ''fabrik_matches'' \<in> set (sources r) then sources r
                                 else sources r @ [''fabrik_matches''])\<rparr>)
                  pl)"
  using assms by (simp add: upsert_player_def opt_truthy_def opt_str_def bind_err_def Let_def)

lemma upsert_player_new:
  assumes "map_of pl pid = None" and "pid \<noteq> []"
    and "normalize_name (opt_str name_arg) = Inr (fst_name, lst_name, full)"
  shows "upsert_player now pl (Some pid) name_arg association_arg =
           Inr (pl @
                  [(pid, \<lparr>pr_ittf_id = pid, first_name = fst_name, last_name = lst_name, full_name = full,
                       dob = None, nationality = association_arg, team = None,
                       stats_matches_played = 0, stats_wins = 0, stats_losses = 0,
                       sources = [''fabrik_matches''], last_seen = now\<rparr>)])"
proof (cases "opt_truthy name_arg \<and> \<not> opt_truthy full")
  case False
  then show ?thesis
    using assms by (auto simp: upsert_player_def opt_truthy_def opt_str_def bind_err_def Let_def od_update_def)
next
  case True
  then show ?thesis
    using assms by (auto simp: upsert_player_def opt_truthy_def opt_str_def bind_err_def Let_def od_update_def
        split: option.splits)
qed

lemma map_of_find: "map_of xs k = map_option snd (find (\<lambda>e. fst e = k) xs)"
  by (induction xs) auto

lemma map_of_entry_keys:
  "map_of (concat (map entry_key ps)) k =
     find (\<lambda>p. truthy (pe_id p) \<and> py_key (pe_id p) = k) ps"
  by (induction ps) (auto simp: entry_key_def)

text \<open>
  \<^bold>\<open>Claim C7.\<close> When a player identifier occurs more than once in a run, the record kept is
  the one of the last occurrence, in \<^verbatim>\<open>unique_players\<close>, in \<^verbatim>\<open>extract_player_ids\<close> and in
  \<^verbatim>\<open>upsert_player\<close>.

  All three test \<^verbatim>\<open>not in\<close> (or \<^verbatim>\<open>is None\<close>) before they store: of two roster records with
  the identifier \<^verbatim>\<open>p1\<close>, \<^verbatim>\<open>unique_players\<close> keeps the first.
\<close>

theorem unique_players_keeps_first_counterexample:
  "unique_players [entry_first, entry_second] = [(PStr ''p1'', entry_first)]
   \<and> entry_first \<noteq> entry_second"
  by code_simp

text \<open>
  \<^bold>\<open>Claim C7, amended.\<close> The record kept is the one of the first occurrence:
  \<^verbatim>\<open>unique_players\<close> maps an identifier to the first roster record that has it, and
  \<^verbatim>\<open>extract_player_ids\<close> to the name of the first entry that has it. \<^verbatim>\<open>upsert_player\<close>
  creates the record at the first occurrence, from that occurrence's name and
  association; once the record has a name and a nationality, a later occurrence changes
  nothing but \<^verbatim>\<open>last_seen\<close> and \<^verbatim>\<open>sources\<close>.
\<close>

theorem first_write_wins:
  assumes "map_of pl pid = Some r" and "pid \<noteq> []"
    and "opt_truthy (full_name r)" and "opt_truthy (nationality r)"
    and "map_of pl2 pid2 = None" and "pid2 \<noteq> []"
    and "normalize_name (opt_str name2) = Inr (fn2, ln2, full2)"
  shows "map_of (unique_players ps) k = find (\<lambda>p. truthy (pe_id p) \<and> py_key (pe_id p) = k) ps
       \<and> map_of (extract_player_ids ms) k2 =
           map_option snd (find (\<lambda>e. fst e = k2) (concat (map match_entries ms)))
       \<and> upsert_player now pl (Some pid) name_arg association_arg =
           Inr (od_update pid
                  (r\<lparr>last_seen := now,
                     sources := (if ''fabrik_matches'' \<in> set (sources r) then sources r
                                 else sources r @ [''fabrik_matches''])\<rparr>)
                  pl)
       \<and> upsert_player now pl2 (Some pid2) name2 association2 =
           Inr (pl2 @
                  [(pid2, \<lparr>pr_ittf_id = pid2, first_name = fn2, last_name = ln2, full_name = full2,
                       dob = None, nationality = association2, team = None,
                       stats_matches_played = 0, stats_wins = 0, stats_losses = 0,
                       sources = [''fabrik_matches''], last_seen = now\<rparr>)])"
proof (intro conjI)
  show "map_of (unique_players ps) k = find (\<lambda>p. truthy (pe_id p) \<and> py_key (pe_id p) = k) ps"
    by (simp only: unique_players_first map_of_entry_keys)
  show "map_of (extract_player_ids ms) k2 =
          map_option snd (find (\<lambda>e. fst e = k2) (concat (map match_entries ms)))"
    by (simp only: extract_player_ids_first map_of_find)
  show "upsert_player now pl (Some pid) name_arg association_arg =
           Inr (od_update pid
                  (r\<lparr>last_seen := now,
                     sources := (if ''fabrik_matches'' \<in> set (sources r) then sources r
                                 else sources r @ [''fabrik_matches''])\<rparr>)
                  pl)"
    by (rule upsert_player_existing [OF assms(1-4)])
  show "upsert_player now pl2 (Some pid2) name2 association2 =
           Inr (pl2 @
                  [(pid2, \<lparr>pr_ittf_id = pid2, first_name = fn2, last_name = ln2, full_name = full2,
                       dob = None, nationality = association2, team = None,
                       stats_matches_played = 0, stats_wins = 0, stats_losses = 0,
                       sources = [''fabrik_matches''], last_seen = now\<rparr>)])"
    by (rule upsert_player_new [OF assms(5-7)])
qed

theorem first_write_wins_witness:
  "map_of [(''121404'', example_player)] ''121404'' = Some example_player
   \<and> ''121404'' \<noteq> []
   \<and> opt_truthy (full_name example_player)
   \<and> opt_truthy (nationality example_player)
   \<and> map_of ([] :: (string \<times> player_record) list) ''121404'' = None
   \<and> ''121404'' \<noteq> []
   \<and> normalize_name (opt_str (Some ''WANG Chuqin'')) =
        Inr (Some ''Chuqin'', Some ''WANG'', Some ''WANG Chuqin'')
   \<and> (map_of (unique_players [entry_first, entry_second]) (PStr ''p1'') =
          find (\<lambda>p. truthy (pe_id p) \<and> py_key (pe_id p) = PStr ''p1'') [entry_first, entry_second]
       \<and> map_of (extract_player_ids []) ''121404'' =
           map_option snd (find (\<lambda>e. fst e = ''121404'') (concat (map match_entries [])))
       \<and> upsert_player ''2026-01-10'' [(''121404'', example_player)] (Some ''121404'')
             (Some ''WANG C.'') (Some ''JPN'') =
           Inr (od_update ''121404''
                  (example_player\<lparr>last_seen := ''2026-01-10'',
                     sources := (if ''fabrik_matches'' \<in> set (sources example_player)
                                 then sources example_player
                                 else sources example_player @ [''fabrik_matches''])\<rparr>)
                  [(''121404'', example_player)])
       \<and> upsert_player ''2026-01-10'' [] (Some ''121404'') (Some ''WANG Chuqin'') (Some ''CHN'') =
           Inr ([] @
                  [(''121404'', \<lparr>pr_ittf_id = ''121404'', first_name = Some ''Chuqin'',
                       last_name = Some ''WANG'', full_name = Some ''WANG Chuqin'',
                       dob = None, nationality = Some ''CHN'', team = None,
                       stats_matches_played = 0, stats_wins = 0, stats_losses = 0,
                       sources = [''fabrik_matches''], last_seen = ''2026-01-10''\<rparr>)]))"
proof -
  have h1: "map_of [(''121404'', example_player)] ''121404'' = Some example_player" by simp
  have h2: "''121404'' \<noteq> []" by simp
  have h3: "opt_truthy (full_name example_player)" by (simp add: example_player_def opt_truthy_def)
  have h4: "opt_truthy (nationality example_player)" by (simp add: example_player_def opt_truthy_def)
  have h5: "map_of ([] :: (string \<times> player_record) list) ''121404'' = None" by simp
  have h7: "normalize_name (opt_str (Some ''WANG Chuqin'')) =
        Inr (Some ''Chuqin'', Some ''WANG'', Some ''WANG Chuqin'')" by code_simp
  note c = first_write_wins
         [where pl = "[(''121404'', example_player)]" and pid = "''121404''" and r = example_player
            and ?pl2.0 = "[]" and ?pid2.0 = "''121404''" and ?name2.0 = "Some ''WANG Chuqin''"
            and ?fn2.0 = "Some ''Chuqin''" and ?ln2.0 = "Some ''WANG''" and ?full2.0 = "Some ''WANG Chuqin''"
            and ps = "[entry_first, entry_second]" and k = "PStr ''p1''" and ms = "[]"
            and ?k2.0 = "''121404''" and now = "''2026-01-10''" and name_arg = "Some ''WANG C.''"
            and association_arg = "Some ''JPN''" and ?association2.0 = "Some ''CHN''",
          OF h1 h2 h3 h4 h5 h2 h7]
  from h1 h2 h3 h4 h5 h7 c show ?thesis by (iprover intro: conjI)
qed

section \<open>Gender from the event code\<close>

text \<open>
  \<^bold>\<open>Claim C8.\<close> Both functions resolve the gender by the prefix of the event code: male for
  every code that begins with \<^verbatim>\<open>MS\<close>, female for every code that begins with \<^verbatim>\<open>WS\<close>.

  \<^const>\<open>extract_gender_from_event_code\<close> looks the whole code up in a table of six codes: a
  longer code that begins with \<^verbatim>\<open>MS\<close> has no entry.
\<close>

theorem extract_gender_exact_match_counterexample:
  "py_startswith ''MSU19'' ''MS'' \<and> extract_gender_from_event_code ''MSU19'' = None"
  by code_simp

text \<open>
  \<^bold>\<open>Claim C8, amended.\<close> \<^const>\<open>determine_player_gender\<close> resolves by prefix: \<^verbatim>\<open>male\<close> for every
  code that begins with \<^verbatim>\<open>MS\<close>, \<^verbatim>\<open>female\<close> for every code that begins with \<^verbatim>\<open>WS\<close>.
  \<^const>\<open>extract_gender_from_event_code\<close> resolves by the whole code: \<^verbatim>\<open>M\<close> for the code
  \<^verbatim>\<open>MS\<close> and \<^verbatim>\<open>W\<close> for the code \<^verbatim>\<open>WS\<close>, and nothing for a longer code that begins with
  either.
\<close>

theorem gender_by_event_code:
  "determine_player_gender pid (''MS'' @ rest) = ''male''
   \<and> determine_player_gender pid (''WS'' @ rest) = ''female''
   \<and> extract_gender_from_event_code (''MS'' @ rest) = (if rest = [] then Some ''M'' else None)
   \<and> extract_gender_from_event_code (''WS'' @ rest) = (if rest = [] then Some ''W'' else None)"
  by (simp add: determine_player_gender_def py_startswith_def extract_gender_from_event_code_def gender_map_def)

section \<open>Player statistics of the league script\<close>

subsection \<open>The rounded win rate stays between 0 and 100\<close>

lemma bitlen_pos: "0 < n \<Longrightarrow> bitlen n = Suc (bitlen (n div 2))"
  by (subst bitlen.simps) simp

lemma bitlen_nonpos: "n \<le> 0 \<Longrightarrow> bitlen n = 0"
  by (subst bitlen.simps) simp

lemma bitlen_bounds: "0 < n \<Longrightarrow> 2 ^ (bitlen n - 1) \<le> n \<and> n < 2 ^ bitlen n"
proof (induction n rule: bitlen.induct)
  case (1 n)
  show ?case
  proof (cases "n div 2 \<le> 0")
    case True
    then have "n = 1" using 1(2) by linarith
    then show ?thesis by (simp add: bitlen_pos bitlen_nonpos)
  next
    case False
    then have h: "0 < n div 2" by simp
    have ih: "2 ^ (bitlen (n div 2) - 1) \<le> n div 2" "n div 2 < 2 ^ bitlen (n div 2)"
      using 1(1) [OF _ h] 1(2) by simp_all
    obtain j where j: "bitlen (n div 2) = Suc j" using h by (auto simp: bitlen_pos)
    have "2 * (n div 2) \<le> n" "n \<le> 2 * (n div 2) + 1" by linarith+
    then have "2 * 2 ^ j \<le> n" "n < 2 * 2 ^ Suc j" using ih j by simp_all
    then show ?thesis using 1(2) j by (simp add: bitlen_pos)
  qed
qed

lemma div_half_even_le:
  assumes "0 < b" and "x \<le> N * b"
  shows "div_half_even x b \<le> N"
proof -
  have "x div b \<le> (N * b) div b" using assms by (intro zdiv_mono1)
  then have q: "x div b \<le> N" using assms(1) by simp
  show ?thesis
  proof (cases "x div b = N")
    case True
    have "b * N + x mod b = x" using True mult_div_mod_eq [of b x] by simp
    moreover have "N * b = b * N" by simp
    ultimately have "x mod b \<le> 0" using assms(2) by linarith
    moreover have "0 \<le> x mod b" using assms(1) by simp
    ultimately have "x mod b = 0" by simp
    then show ?thesis using True assms(1) by (simp add: div_half_even_def Let_def)
  next
    case False
    then have "x div b + 1 \<le> N" using q by simp
    then show ?thesis by (simp add: div_half_even_def Let_def)
  qed
qed

lemma div_half_even_nonneg: "0 \<le> x \<Longrightarrow> 0 < b \<Longrightarrow> 0 \<le> div_half_even x b"
  by (simp add: div_half_even_def Let_def pos_imp_zdiv_nonneg_iff)

lemma nearest_double_le:
  assumes a: "0 < a" and b: "0 < b" and le: "a \<le> C * b" and C: "C < 2 ^ 53"
    and nd: "nearest_double a b = (m, k)"
  shows "k \<le> 0 \<and> 0 \<le> m \<and> m \<le> C * 2 ^ nat (- k)"
proof -
  define d where "d = int (bitlen a) - int (bitlen b)"
  define e where
    "e = (if (if d \<ge> 0 then a \<ge> b * 2 ^ nat d else a * 2 ^ nat (- d) \<ge> b) then d else d - 1)"
  have lt: "a < 2 ^ 53 * b"
  proof -
    have "C * b < 2 ^ 53 * b" using C b by simp
    then show ?thesis using le by linarith
  qed
  have e52: "e \<le> 52"
  proof (rule ccontr)
    assume "\<not> e \<le> 52"
    then have e53: "53 \<le> e" by simp
    show False
    proof (cases "e = d")
      case True
      then have "b * 2 ^ nat d \<le> a" using e53 by (auto simp: e_def split: if_splits)
      moreover have "(2::int) ^ 53 \<le> 2 ^ nat d" using e53 True by (intro power_increasing) auto
      then have "b * 2 ^ 53 \<le> b * 2 ^ nat d" using b by simp
      ultimately show False using lt by (simp add: mult.commute)
    next
      case False
      then have ed: "e = d - 1" by (auto simp: e_def split: if_splits)
      then have d54: "54 \<le> d" using e53 by simp
      have la: "2 ^ (bitlen a - 1) \<le> a" using bitlen_bounds [OF a] by simp
      have lb: "b < 2 ^ bitlen b" using bitlen_bounds [OF b] by simp
      have "bitlen a - 1 = bitlen b + 53 + (nat d - 54)" using d54 by (simp add: d_def)
      then have "(2::int) ^ (bitlen a - 1) = 2 ^ bitlen b * 2 ^ 53 * 2 ^ (nat d - 54)"
        by (simp add: power_add)
      moreover have "(1::int) \<le> 2 ^ (nat d - 54)" by simp
      ultimately have "(2::int) ^ bitlen b * 2 ^ 53 \<le> 2 ^ (bitlen a - 1)"
        using mult_left_mono [of 1 "2 ^ (nat d - 54)" "(2::int) ^ bitlen b * 2 ^ 53"] by simp
      then have "2 ^ bitlen b * 2 ^ 53 \<le> a" using la by linarith
      moreover have "b * 2 ^ 53 < 2 ^ bitlen b * 2 ^ 53" using lb by simp
      ultimately show False using lt by (simp add: mult.commute)
    qed
  qed
  then have s: "0 \<le> 52 - e" by simp
  have mk: "m = div_half_even (a * 2 ^ nat (52 - e)) b" "k = - (52 - e)"
    using nd a s by (simp_all add: nearest_double_def Let_def d_def [symmetric] e_def [symmetric])
  have "a * 2 ^ nat (52 - e) \<le> (C * 2 ^ nat (52 - e)) * b"
    using le by (simp add: mult.assoc mult.left_commute mult_right_mono)
  then have "m \<le> C * 2 ^ nat (52 - e)" unfolding mk(1) using b by (intro div_half_even_le)
  moreover have "0 \<le> m" unfolding mk(1) using a b by (intro div_half_even_nonneg) simp_all
  ultimately show ?thesis using mk(2) s by simp
qed

lemma nearest_double_zero: "nearest_double 0 b = (0, 0)"
  by (simp add: nearest_double_def)

lemma nearest_double_le':
  assumes "0 \<le> a" and "0 < b" and "a \<le> C * b" and "C < 2 ^ 53"
    and "nearest_double a b = (m, k)"
  shows "k \<le> 0 \<and> 0 \<le> m \<and> m \<le> C * 2 ^ nat (- k)"
proof (cases "a = 0")
  case True
  then have "m = 0" "k = 0" using assms(5) by (simp_all add: nearest_double_zero)
  moreover have "0 \<le> C" using assms(1-3) True by (simp add: zero_le_mult_iff)
  ultimately show ?thesis by simp
next
  case False
  then show ?thesis using nearest_double_le [of a b C m k] assms by simp
qed

lemma win_rate_bounds:
  assumes "w \<le> g" and "0 < g"
  shows "0 \<le> win_rate w g \<and> win_rate w g \<le> 100"
proof -
  obtain m k where x: "nearest_double (int w) (int g) = (m, k)" by (cases "nearest_double (int w) (int g)")
  have xb: "k \<le> 0" "0 \<le> m" "m \<le> 1 * 2 ^ nat (- k)"
    using nearest_double_le' [of "int w" "int g" 1 m k] assms x by simp_all
  obtain m' k' where y: "float_mul_int (m, k) 100 = (m', k')" by (cases "float_mul_int (m, k) 100")
  have yb: "k' \<le> 0 \<and> 0 \<le> m' \<and> m' \<le> 100 * 2 ^ nat (- k')"
  proof (cases "k \<ge> 0")
    case True
    then have k0: "k = 0" using xb(1) by simp
    then have "nearest_double (m * 100) 1 = (m', k')" using y by (simp add: float_mul_int_def)
    then show ?thesis
      using nearest_double_le' [of "m * 100" 1 100 m' k'] xb k0 by simp
  next
    case False
    then have "nearest_double (m * 100) (2 ^ nat (- k)) = (m', k')" using y by (simp add: float_mul_int_def)
    then show ?thesis
      using nearest_double_le' [of "m * 100" "2 ^ nat (- k)" 100 m' k'] xb by simp
  qed
  have t: "win_rate w g = float_trunc (m', k')" by (simp add: win_rate_def x y)
  show ?thesis
  proof (cases "k' \<ge> 0")
    case True
    then have "k' = 0" using yb by simp
    then show ?thesis using yb t by (simp add: float_trunc_def)
  next
    case False
    have p: "(0::int) < 2 ^ nat (- k')" by simp
    have "m' div 2 ^ nat (- k') \<le> (100 * 2 ^ nat (- k')) div 2 ^ nat (- k')"
      using yb p by (intro zdiv_mono1) simp_all
    then have "m' div 2 ^ nat (- k') \<le> 100" by simp
    moreover have "0 \<le> m' div 2 ^ nat (- k')" using yb p by (simp add: pos_imp_zdiv_nonneg_iff)
    ultimately show ?thesis using t False by (simp add: float_trunc_def)
  qed
qed

lemma div_half_even_nearest: "0 < b \<Longrightarrow> 2 * \<bar>a - div_half_even a b * b\<bar> \<le> b"
proof -
  assume b: "0 < b"
  have "a = b * (a div b) + a mod b" by simp
  then have e: "a - (a div b) * b = a mod b" "a - (a div b + 1) * b = a mod b - b"
    by (simp_all add: algebra_simps)
  have r: "0 \<le> a mod b" "a mod b < b" using b by simp_all
  show ?thesis
    using r by (auto simp: div_half_even_def Let_def e)
qed

text \<open>Some doubles: one tenth is \<open>7205759403792794 * 2 ^ - 56\<close>; \<open>2 ^ 53 + 1\<close> lies half-way
  between two doubles and goes to the even mantissa; 29 / 50 times 100 is cut to 57 and
  28 / 50 times 100 to 56.\<close>

lemma nearest_double_examples:
  "nearest_double 1 10 = (7205759403792794, - 56)"
  "nearest_double 1 3 = (6004799503160661, - 54)"
  "nearest_double 9007199254740993 1 = (4503599627370496, 1)"
  "nearest_double 9007199254740995 1 = (4503599627370498, 1)"
  "nearest_double 29 50 = (5224175567749775, - 53)"
  "win_rate 29 50 = 57"
  "win_rate 28 50 = 56"
  by code_simp+

subsection \<open>The win rate and the exact quotient\<close>

text \<open>The mantissa of the double nearest to \<open>a / b\<close> is \<open>a * 2 ^ - k / b\<close> rounded to an
  integer, and \<open>- k\<close> is at least \<open>52 - c\<close> when \<open>a / b \<le> 2 ^ c\<close>.\<close>

lemma nearest_double_shift:
  assumes a: "0 < a" and b: "0 < b" and le: "a \<le> 2 ^ c * b" and c: "c \<le> 52"
    and nd: "nearest_double a b = (m, k)"
  shows "k \<le> int c - 52 \<and> m = div_half_even (a * 2 ^ nat (- k)) b"
proof -
  define d where "d = int (bitlen a) - int (bitlen b)"
  define e where
    "e = (if (if d \<ge> 0 then a \<ge> b * 2 ^ nat d else a * 2 ^ nat (- d) \<ge> b) then d else d - 1)"
  have dc: "d \<le> int c"
  proof (rule ccontr)
    assume "\<not> d \<le> int c"
    then have d1: "int c + 1 \<le> d" by simp
    have la: "2 ^ (bitlen a - 1) \<le> a" using bitlen_bounds [OF a] by simp
    have lb: "b < 2 ^ bitlen b" using bitlen_bounds [OF b] by simp
    have "bitlen a - 1 = bitlen b + c + (nat d - c - 1)" using d1 by (simp add: d_def)
    then have "(2::int) ^ (bitlen a - 1) = 2 ^ bitlen b * 2 ^ c * 2 ^ (nat d - c - 1)"
      by (simp add: power_add)
    moreover have "(1::int) \<le> 2 ^ (nat d - c - 1)" by simp
    ultimately have "(2::int) ^ bitlen b * 2 ^ c \<le> 2 ^ (bitlen a - 1)"
      using mult_left_mono [of 1 "2 ^ (nat d - c - 1)" "(2::int) ^ bitlen b * 2 ^ c"] by simp
    then have "2 ^ bitlen b * 2 ^ c \<le> a" using la by linarith
    moreover have "b * 2 ^ c < 2 ^ bitlen b * 2 ^ c" using lb by simp
    moreover have "a \<le> b * 2 ^ c" using le by (simp add: mult.commute)
    ultimately show False by linarith
  qed
  have "e \<le> d" by (simp add: e_def)
  then have ec: "e \<le> int c" using dc by simp
  then have s: "0 \<le> 52 - e" using c by simp
  have mk: "m = div_half_even (a * 2 ^ nat (52 - e)) b" "k = - (52 - e)"
    using nd a s by (simp_all add: nearest_double_def Let_def d_def [symmetric] e_def [symmetric])
  show ?thesis using mk ec by simp
qed

lemma div_half_even_real:
  assumes "0 < b"
  shows "\<bar>real_of_int a / real_of_int b - real_of_int (div_half_even a b)\<bar> \<le> 1 / 2"
proof -
  define q where "q = div_half_even a b"
  have "2 * \<bar>a - q * b\<bar> \<le> b" unfolding q_def by (rule div_half_even_nearest [OF assms])
  then have "real_of_int (2 * \<bar>a - q * b\<bar>) \<le> real_of_int b" by (simp only: of_int_le_iff)
  then have 1: "\<bar>real_of_int a - real_of_int q * real_of_int b\<bar> \<le> real_of_int b / 2" by simp
  have rb: "0 < real_of_int b" using assms by simp
  have "real_of_int a / real_of_int b - real_of_int q
          = (real_of_int a - real_of_int q * real_of_int b) / real_of_int b"
    using rb by (simp add: field_simps)
  then have "\<bar>real_of_int a / real_of_int b - real_of_int q\<bar>
          = \<bar>real_of_int a - real_of_int q * real_of_int b\<bar> / real_of_int b"
    using rb by (simp add: abs_divide)
  also have "\<dots> \<le> (real_of_int b / 2) / real_of_int b"
    using 1 rb by (intro divide_right_mono) simp_all
  also have "\<dots> = 1 / 2" using rb by simp
  finally show ?thesis unfolding q_def .
qed

lemma div_half_even_ge: "0 < b \<Longrightarrow> a div b \<le> div_half_even a b"
  by (simp add: div_half_even_def Let_def)

text \<open>The double nearest to \<open>a / b\<close>, as a real number, is within \<open>2 ^ (k - 1)\<close> of it.\<close>

lemma nearest_double_error:
  assumes a: "0 < a" and b: "0 < b" and le: "a \<le> 2 ^ c * b" and c: "c \<le> 52"
    and nd: "nearest_double a b = (m, k)"
  shows "\<bar>real_of_int a / real_of_int b - real_of_int m / 2 ^ nat (- k)\<bar> \<le> 1 / (2 * 2 ^ (52 - c))"
proof -
  define s where "s = nat (- k)"
  have sh: "k \<le> int c - 52" "m = div_half_even (a * 2 ^ s) b"
    using nearest_double_shift [OF a b le c nd] by (simp_all add: s_def)
  have sc: "52 - c \<le> s" using sh(1) c by (simp add: s_def)
  have S: "(0::real) < 2 ^ s" by simp
  have "\<bar>real_of_int (a * 2 ^ s) / real_of_int b - real_of_int m\<bar> \<le> 1 / 2"
    unfolding sh(2) by (rule div_half_even_real [OF b])
  then have 1: "\<bar>real_of_int a * 2 ^ s / real_of_int b - real_of_int m\<bar> \<le> 1 / 2" by simp
  have "real_of_int a / real_of_int b - real_of_int m / 2 ^ s
          = (real_of_int a * 2 ^ s / real_of_int b - real_of_int m) / 2 ^ s"
    by (simp add: field_simps)
  then have "\<bar>real_of_int a / real_of_int b - real_of_int m / 2 ^ s\<bar>
          = \<bar>real_of_int a * 2 ^ s / real_of_int b - real_of_int m\<bar> / 2 ^ s"
    by (simp add: abs_divide)
  also have "\<dots> \<le> (1 / 2) / 2 ^ s" using 1 by (intro divide_right_mono) simp_all
  also have "\<dots> = 1 / (2 * 2 ^ s)" by simp
  also have "\<dots> \<le> 1 / (2 * 2 ^ (52 - c))"
  proof -
    have "(2::real) ^ (52 - c) \<le> 2 ^ s" using sc by (intro power_increasing) simp_all
    then show ?thesis by (intro divide_left_mono) simp_all
  qed
  finally show ?thesis unfolding s_def .
qed

text \<open>\<^verbatim>\<open>int(w / g * 100)\<close> and the exact \<open>\<lfloor>100 * w / g\<rfloor>\<close> differ by at most one, and only
  downwards: the two roundings move the product by less than \<open>2 ^ - 45\<close>, which can carry it
  below an integer it should reach, never up to the next one.\<close>

lemma win_rate_floor:
  assumes w: "0 < w" and wg: "w \<le> g" and g: "int g < 2 ^ 45"
  shows "(100 * int w) div int g - 1 \<le> win_rate w g \<and> win_rate w g \<le> (100 * int w) div int g"
proof -
  have g0: "0 < g" using w wg by simp
  obtain m k where x: "nearest_double (int w) (int g) = (m, k)" by (cases "nearest_double (int w) (int g)")
  define s where "s = nat (- k)"
  have le1: "int w \<le> 2 ^ 0 * int g" using wg by simp
  have xs: "k \<le> - 52" "m = div_half_even (int w * 2 ^ s) (int g)"
    using nearest_double_shift [of "int w" "int g" 0 m k] w g0 le1 x by (simp_all add: s_def)
  have k: "k = - int s" "52 \<le> s" using xs(1) by (simp_all add: s_def)
  have xe: "\<bar>real w / real g - real_of_int m / 2 ^ s\<bar> \<le> 1 / (2 * 2 ^ 52)"
    using nearest_double_error [of "int w" "int g" 0 m k] w g0 le1 x by (simp add: s_def)
  have mle: "m \<le> 2 ^ s"
    using nearest_double_le [of "int w" "int g" 1 m k] w g0 wg x by (simp add: s_def)
  have mpos: "0 < m"
  proof -
    have "(2::int) ^ 45 \<le> 2 ^ s" using k(2) by (intro power_increasing) simp_all
    then have "int g \<le> 2 ^ s" using g by linarith
    also have "\<dots> \<le> int w * 2 ^ s" using w by simp
    finally have "int g div int g \<le> (int w * 2 ^ s) div int g" by (intro zdiv_mono1) (use g0 in simp_all)
    then have "1 \<le> (int w * 2 ^ s) div int g" using g0 by simp
    then show ?thesis using div_half_even_ge [of "int g" "int w * 2 ^ s"] g0 xs(2) by simp
  qed
  obtain m' k' where y: "float_mul_int (m, k) 100 = (m', k')" by (cases "float_mul_int (m, k) 100")
  define s' where "s' = nat (- k')"
  have kneg: "\<not> k \<ge> 0" using xs(1) by simp
  have y': "nearest_double (m * 100) (2 ^ s) = (m', k')"
    using y kneg by (simp add: float_mul_int_def s_def)
  have le2: "m * 100 \<le> 2 ^ 7 * 2 ^ s"
  proof -
    have "m * 100 \<le> 2 ^ s * 100" using mle by simp
    also have "\<dots> \<le> 2 ^ s * 2 ^ 7" by simp
    finally show ?thesis by (simp add: mult.commute)
  qed
  have a2: "0 < m * 100" using mpos by simp
  have b2: "(0::int) < 2 ^ s" by simp
  have ys: "k' \<le> - 45"
    using nearest_double_shift [OF a2 b2 le2 _ y'] by simp
  have ye: "\<bar>real_of_int (m * 100) / real_of_int (2 ^ s) - real_of_int m' / 2 ^ s'\<bar> \<le> 1 / (2 * 2 ^ 45)"
    using nearest_double_error [OF a2 b2 le2 _ y'] by (simp add: s'_def)
  define X where "X = real_of_int m / 2 ^ s"
  define Y where "Y = real_of_int m' / 2 ^ s'"
  define v where "v = 100 * real w / real g"
  have ye': "\<bar>100 * X - Y\<bar> \<le> 1 / (2 * 2 ^ 45)" using ye by (simp add: X_def Y_def mult.commute)
  have xe': "\<bar>v - 100 * X\<bar> \<le> 100 / (2 * 2 ^ 52)"
  proof -
    have "v - 100 * X = 100 * (real w / real g - real_of_int m / 2 ^ s)"
      by (simp add: v_def X_def algebra_simps)
    then have "\<bar>v - 100 * X\<bar> = \<bar>100 * (real w / real g - real_of_int m / 2 ^ s)\<bar>" by (simp only:)
    also have "\<dots> = 100 * \<bar>real w / real g - real_of_int m / 2 ^ s\<bar>"
      using abs_mult [of "100::real" "real w / real g - real_of_int m / 2 ^ s"]
      by (simp only: abs_numeral)
    finally show ?thesis using xe by simp
  qed
  have close: "\<bar>v - Y\<bar> < 1 / 2 ^ 45"
  proof -
    have "\<bar>v - Y\<bar> \<le> \<bar>v - 100 * X\<bar> + \<bar>100 * X - Y\<bar>" by simp
    also have "\<dots> \<le> 100 / (2 * 2 ^ 52) + 1 / (2 * 2 ^ 45)" using xe' ye' by linarith
    also have "\<dots> < 1 / 2 ^ 45" by simp
    finally show ?thesis .
  qed
  define F where "F = (100 * int w) div int g"
  define r where "r = (100 * int w) mod int g"
  have fr: "100 * int w = F * int g + r" by (simp add: F_def r_def)
  have r: "0 \<le> r" "r \<le> int g - 1" using g0 by (simp_all add: r_def)
  have rg: "0 < real g" using g0 by simp
  have "real_of_int (100 * int w) = real_of_int (F * int g + r)" using fr by simp
  then have "100 * real w = real_of_int F * real g + real_of_int r" by simp
  then have vF: "v = real_of_int F + real_of_int r / real g" using rg by (simp add: v_def field_simps)
  have lo: "real_of_int F \<le> v"
  proof -
    have "0 \<le> real_of_int r / real g" using r(1) rg by simp
    then show ?thesis using vF by simp
  qed
  have hi: "v \<le> real_of_int F + 1 - 1 / real g"
  proof -
    have "real_of_int r \<le> real g - 1" using r(2) by (simp add: of_int_le_iff [symmetric] del: of_int_le_iff)
    then have "real_of_int r / real g \<le> (real g - 1) / real g" using rg by (intro divide_right_mono) simp_all
    also have "\<dots> = 1 - 1 / real g" using rg by (simp add: field_simps)
    finally show ?thesis using vF by simp
  qed
  have ginv: "1 / 2 ^ 45 < 1 / real g"
  proof -
    have "real_of_int (int g) < real_of_int (2 ^ 45)" using g by (simp only: of_int_less_iff)
    then have "real g < 2 ^ 45" by simp
    then show ?thesis using rg by (intro divide_strict_left_mono) simp_all
  qed
  have Ylo: "real_of_int (F - 1) \<le> Y"
  proof -
    have "v - Y < 1 / 2 ^ 45" using close by linarith
    moreover have "(1::real) / 2 ^ 45 \<le> 1" by simp
    ultimately show ?thesis using lo by simp
  qed
  have Yhi: "Y < real_of_int (F + 1)"
  proof -
    have "Y - v < 1 / 2 ^ 45" using close by linarith
    then show ?thesis using hi ginv by simp
  qed
  have k'neg: "\<not> k' \<ge> 0" using ys by simp
  have t: "win_rate w g = m' div 2 ^ s'"
    using k'neg by (simp add: win_rate_def x y float_trunc_def s'_def)
  have fl: "m' div 2 ^ s' = \<lfloor>Y\<rfloor>"
    unfolding Y_def using floor_divide_of_int_eq [of m' "2 ^ s'", where ?'a = real] by simp
  have "F - 1 \<le> \<lfloor>Y\<rfloor>" using Ylo by (simp only: le_floor_iff)
  moreover have "\<lfloor>Y\<rfloor> < F + 1" using Yhi by (simp only: floor_less_iff)
  ultimately show ?thesis using t fl by (simp add: F_def)
qed

lemma win_rate_zero: "win_rate 0 g = 0"
  by (simp add: win_rate_def nearest_double_zero float_mul_int_def float_trunc_def)

lemma win_rate_floor_rate:
  assumes "w \<le> g" and "0 < g" and "g < 2 ^ 45"
  shows "floor_rate w g - 1 \<le> win_rate w g \<and> win_rate w g \<le> floor_rate w g"
proof (cases "w = 0")
  case True
  then show ?thesis by (simp add: win_rate_zero floor_rate_def)
next
  case False
  have "int g < int (2 ^ 45)" using assms(3) by (simp only: of_nat_less_iff)
  then have "int g < 2 ^ 45" by simp
  then show ?thesis using win_rate_floor [of w g] False assms(1) by (simp add: floor_rate_def)
qed


subsection \<open>Every credit is counted once\<close>

lemma map_of_map_adjust:
  "map_of (map (\<lambda>(k, s). if k = key then (k, f s) else (k, s)) d) x =
     (if x = key then map_option f (map_of d key) else map_of d x)"
  by (induction d) auto

lemma map_fst_map_adjust:
  "map fst (map (\<lambda>(k, s). if k = key then (k, f s) else (k, s)) d) = map fst d"
  by (induction d) auto

lemma tally_snoc:
  "games_of k (cs @ [(key, won)]) = games_of k cs + (if k = key then 1 else 0)"
  "wins_of k (cs @ [(key, won)]) = wins_of k cs + (if k = key \<and> won then 1 else 0)"
  "losses_of k (cs @ [(key, won)]) = losses_of k cs + (if k = key \<and> \<not> won then 1 else 0)"
  by (simp_all add: games_of_def wins_of_def losses_of_def)

lemma tally_append:
  "games_of k (cs @ ds) = games_of k cs + games_of k ds"
  "wins_of k (cs @ ds) = wins_of k cs + wins_of k ds"
  "losses_of k (cs @ ds) = losses_of k cs + losses_of k ds"
  by (simp_all add: games_of_def wins_of_def losses_of_def)

lemma credit_game_tallies:
  assumes "tallies stats cs"
  shows "tallies (credit_game mid pid pname won stats) (cs @ [(py_key pid, won)])"
proof -
  let ?key = "py_key pid"
  let ?f = "\<lambda>s. s\<lparr>gamesPlayed := gamesPlayed s + 1, lastMatch := mid,
                     wins := (if won then wins s + 1 else wins s),
                     losses := (if won then losses s else losses s + 1)\<rparr>"
  define stats1 where
    "stats1 = (case map_of stats ?key of
                 None \<Rightarrow> stats @ [(?key, \<lparr>ps_id = pid, ps_name = pname, gamesPlayed = 0, wins = 0,
                                         losses = 0, lastMatch = mid\<rparr>)]
               | Some _ \<Rightarrow> stats)"
  have cg: "credit_game mid pid pname won stats =
              map (\<lambda>(k, s). if k = ?key then (k, ?f s) else (k, s)) stats1"
    by (simp add: credit_game_def stats1_def Let_def)
  have d: "distinct (map fst stats)" using assms by (simp add: tallies_def)
  have t: "case map_of stats k of
             None \<Rightarrow> games_of k cs = 0
           | Some s \<Rightarrow> gamesPlayed s = games_of k cs \<and> wins s = wins_of k cs \<and> losses s = losses_of k cs
                        \<and> 0 < games_of k cs" for k
    using assms by (simp add: tallies_def)
  have d1: "distinct (map fst stats1)"
    using d by (auto simp: stats1_def map_of_eq_None_iff split: option.splits)
  have m1: "map_of stats1 k =
              (if k = ?key \<and> map_of stats ?key = None
               then Some \<lparr>ps_id = pid, ps_name = pname, gamesPlayed = 0, wins = 0, losses = 0, lastMatch = mid\<rparr>
               else map_of stats k)" for k
    by (auto simp: stats1_def map_add_def split: option.splits)
  have "distinct (map fst (credit_game mid pid pname won stats))"
    using d1 unfolding cg map_fst_map_adjust .
  moreover have "case map_of (credit_game mid pid pname won stats) k of
             None \<Rightarrow> games_of k (cs @ [(?key, won)]) = 0
           | Some s \<Rightarrow> gamesPlayed s = games_of k (cs @ [(?key, won)])
                        \<and> wins s = wins_of k (cs @ [(?key, won)])
                        \<and> losses s = losses_of k (cs @ [(?key, won)])
                        \<and> 0 < games_of k (cs @ [(?key, won)])" for k
  proof (cases "k = ?key")
    case False
    then show ?thesis using t [of k]
      by (simp add: cg map_of_map_adjust m1 tally_snoc split: option.splits)
  next
    case True
    show ?thesis
    proof (cases "map_of stats ?key")
      case None
      then have "games_of ?key cs = 0" using t [of ?key] by simp
      then have "wins_of ?key cs = 0" "losses_of ?key cs = 0"
        by (auto simp: games_of_def wins_of_def losses_of_def filter_empty_conv)
      then show ?thesis using True None \<open>games_of ?key cs = 0\<close>
        by (simp add: cg map_of_map_adjust m1 tally_snoc)
    next
      case (Some s)
      then show ?thesis using True t [of ?key]
        by (simp add: cg map_of_map_adjust m1 tally_snoc)
    qed
  qed
  moreover have "\<forall>(k, s) \<in> set (credit_game mid pid pname won stats). k = py_key (ps_id s)"
  proof -
    have "\<forall>(k, s) \<in> set stats. k = py_key (ps_id s)" using assms by (simp add: tallies_def)
    then have "\<forall>(k, s) \<in> set stats1. k = py_key (ps_id s)"
      by (auto simp: stats1_def split: option.splits)
    then show ?thesis unfolding cg by (auto split: if_splits)
  qed
  ultimately show ?thesis by (simp add: tallies_def)
qed

lemma process_game_tallies:
  assumes "tallies stats cs"
  shows "tallies (process_game mid g stats) (cs @ game_credits g)"
proof (cases "gameState g = PStr ''Finished''")
  case False
  then show ?thesis using assms by (simp add: process_game_def game_credits_def Let_def)
next
  case True
  define h where "h = player_id_of (pick_player (homePlayer g) (homeLeaguePlayer g))"
  define a where "a = player_id_of (pick_player (awayPlayer g) (awayLeaguePlayer g))"
  define hcs where
    "hcs = (if truthy h \<and> h \<noteq> PStr ''null'' then [(py_key h, winnerSide g = PStr ''Home'')] else [])"
  define acs where
    "acs = (if truthy a \<and> a \<noteq> PStr ''null'' then [(py_key a, winnerSide g = PStr ''Away'')] else [])"
  define stats1 where
    "stats1 = (if truthy h \<and> h \<noteq> PStr ''null''
               then credit_game mid h (player_name_of (pick_player (homePlayer g) (homeLeaguePlayer g)))
                      (winnerSide g = PStr ''Home'') stats
               else stats)"
  define stats2 where
    "stats2 = (if truthy a \<and> a \<noteq> PStr ''null''
               then credit_game mid a (player_name_of (pick_player (awayPlayer g) (awayLeaguePlayer g)))
                      (winnerSide g = PStr ''Away'') stats1
               else stats1)"
  have 1: "tallies stats1 (cs @ hcs)"
  proof (cases "truthy h \<and> h \<noteq> PStr ''null''")
    case True
    then have "stats1 = credit_game mid h (player_name_of (pick_player (homePlayer g) (homeLeaguePlayer g)))
                      (winnerSide g = PStr ''Home'') stats"
      and "hcs = [(py_key h, winnerSide g = PStr ''Home'')]"
      by (simp_all add: stats1_def hcs_def)
    then show ?thesis
      using credit_game_tallies [OF assms] by (simp only:)
  next
    case False
    then have "stats1 = stats" and "hcs = []" by (auto simp add: stats1_def hcs_def)
    then show ?thesis using assms by (simp only: append_Nil2)
  qed
  have 2: "tallies stats2 ((cs @ hcs) @ acs)"
  proof (cases "truthy a \<and> a \<noteq> PStr ''null''")
    case True
    then have "stats2 = credit_game mid a (player_name_of (pick_player (awayPlayer g) (awayLeaguePlayer g)))
                      (winnerSide g = PStr ''Away'') stats1"
      and "acs = [(py_key a, winnerSide g = PStr ''Away'')]"
      by (simp_all add: stats2_def acs_def)
    then show ?thesis
      using credit_game_tallies [OF 1] by (simp only:)
  next
    case False
    then have "stats2 = stats1" and "acs = []" by (auto simp add: stats2_def acs_def)
    then show ?thesis using 1 by (simp only: append_Nil2)
  qed
  have "process_game mid g stats = stats2"
    unfolding process_game_def Let_def stats2_def stats1_def h_def a_def
    using True by (simp only: if_True simp_thms)
  moreover have "game_credits g = hcs @ acs"
    unfolding game_credits_def Let_def hcs_def acs_def h_def a_def
    using True by (simp only: if_True simp_thms)
  ultimately show ?thesis using 2 by simp
qed

lemma games_loop_tallies:
  "tallies stats cs \<Longrightarrow>
     tallies (fst (games_loop mid gs stats)) (cs @ concat (map game_credits (games_reached gs)))"
proof (induction gs arbitrary: stats cs)
  case Nil
  then show ?case by simp
next
  case (Cons x gs)
  show ?case
  proof (cases x)
    case Bad_game
    then show ?thesis using Cons.prems by simp
  next
    case (Game g)
    then show ?thesis
      using Cons.IH [OF process_game_tallies [OF Cons.prems, of mid g]] by simp
  qed
qed

lemma match_step_tallies:
  assumes "tallies (player_stats st) cs"
  shows "tallies (player_stats (match_step w st mid)) (cs @ match_credits w mid)"
proof (cases "match_api w mid")
  case (Inl e)
  then show ?thesis using assms by (simp add: match_step_def match_credits_def)
next
  case (Inr md)
  show ?thesis
  proof (cases "header_ok md")
    case False
    then show ?thesis using assms Inr by (simp add: match_step_def match_credits_def Let_def)
  next
    case True
    obtain stats err where g: "games_loop mid (match_games md) (player_stats st) = (stats, err)"
      by (cases "games_loop mid (match_games md) (player_stats st)")
    have "tallies stats (cs @ concat (map game_credits (games_reached (match_games md))))"
      using games_loop_tallies [OF assms, of mid "match_games md"] g by simp
    then show ?thesis using Inr True g
      by (cases err) (simp_all add: match_step_def match_credits_def Let_def)
  qed
qed

lemma match_loop_tallies:
  "tallies (player_stats st) cs \<Longrightarrow>
     tallies (player_stats (match_loop w st ids)) (cs @ concat (map (match_credits w) ids))"
proof (induction ids arbitrary: st cs)
  case Nil
  then show ?case by simp
next
  case (Cons mid ids)
  then show ?case
    using Cons.IH [OF match_step_tallies [OF Cons.prems, of w mid]] by simp
qed

lemma tallies_entry:
  assumes "tallies stats cs" and "(k, s) \<in> set stats"
  shows "gamesPlayed s = games_of k cs \<and> wins s = wins_of k cs \<and> losses s = losses_of k cs
         \<and> 0 < games_of k cs"
proof -
  have "map_of stats k = Some s" using assms by (simp add: tallies_def)
  then show ?thesis using assms(1) unfolding tallies_def by (metis (mono_tags, lifting) option.simps(5))
qed

lemma tallies_complete:
  assumes "tallies stats cs" and "0 < games_of k cs"
  shows "\<exists>s. (k, s) \<in> set stats"
proof (cases "map_of stats k")
  case None
  then have "games_of k cs = 0" using assms(1) unfolding tallies_def by (metis (mono_tags, lifting) option.simps(4))
  then show ?thesis using assms(2) by simp
next
  case (Some s)
  then show ?thesis by (auto dest: map_of_SomeD)
qed

lemma tally_sum: "wins_of k cs + losses_of k cs = games_of k cs"
  by (induction cs) (auto simp: wins_of_def losses_of_def games_of_def)


subsection \<open>The list written\<close>

lemma set_player_stats_final:
  "set (player_stats_final stats) = (\<lambda>(k, s). with_win_rate s) ` set stats"
  by (simp add: player_stats_final_def)

lemma sorted_player_stats_final:
  "sorted_wrt (\<lambda>p q. winRate p \<ge> winRate q) (player_stats_final stats)"
proof -
  have "sorted (map (\<lambda>p. - winRate p) (player_stats_final stats))"
    by (simp add: player_stats_final_def)
  then show ?thesis by (simp add: sorted_map sorted_wrt_iff_nth_less)
qed

lemma with_win_rate_fields:
  "wins (with_win_rate s) = wins s" "losses (with_win_rate s) = losses s"
  "gamesPlayed (with_win_rate s) = gamesPlayed s"
  "winRate (with_win_rate s) = (if gamesPlayed s > 0 then win_rate (wins s) (gamesPlayed s) else 0)"
  by (simp_all add: with_win_rate_def)

text \<open>The statistics after the match loop tally with the credits of the matches, taken in
  the order of the loop.\<close>

lemma player_stats_tallies:
  "tallies (player_stats (match_loop w \<lparr>player_stats = [], match_files = files, error_log = []\<rparr> ids))
     (concat (map (match_credits w) ids))"
proof -
  have "tallies (player_stats \<lparr>player_stats = [], match_files = files, error_log = []\<rparr>) []"
    by (simp add: tallies_def games_of_def)
  then show ?thesis using match_loop_tallies by fastforce
qed

text \<open>When the game-day loop ends without an exception the script writes its files. Each
  record of \<^verbatim>\<open>player_stats_final.json\<close> then carries the number of credits of its player as
  games played, the won ones as wins and the lost ones as losses, so that wins and losses
  add up to the games played, of which there is at least one; its win rate is
  \<^verbatim>\<open>int(wins / gamesPlayed * 100)\<close>, lies between 0 and 100, and, for fewer than
  \<open>2 ^ 45\<close> games, is the exact rate or one below it; every player with a credit has exactly one record; and the list is in order of
  win rate, highest first.\<close>

lemma ttbl_script_player_stats:
  assumes g: "gameday_loop w find_ids [1 ..< 19] [] = Inr found"
  defines "cs \<equiv> concat (map (match_credits w) (sort (remdups found)))"
  shows "\<exists>final uniq errs.
           ttbl_script w find_ids files = Inr (final, uniq, errs)
         \<and> (\<forall>p \<in> set final.
               gamesPlayed p = games_of (py_key (ps_id p)) cs
             \<and> wins p = wins_of (py_key (ps_id p)) cs
             \<and> losses p = losses_of (py_key (ps_id p)) cs
             \<and> 0 < gamesPlayed p
             \<and> wins p + losses p = gamesPlayed p
             \<and> winRate p = win_rate (wins p) (gamesPlayed p)
             \<and> 0 \<le> winRate p \<and> winRate p \<le> 100
             \<and> (gamesPlayed p < 2 ^ 45 \<longrightarrow>
                  floor_rate (wins p) (gamesPlayed p) - 1 \<le> winRate p
                \<and> winRate p \<le> floor_rate (wins p) (gamesPlayed p)))
         \<and> (\<forall>k. 0 < games_of k cs \<longrightarrow> (\<exists>p \<in> set final. py_key (ps_id p) = k))
         \<and> distinct (map (\<lambda>p. py_key (ps_id p)) final)
         \<and> sorted_wrt (\<lambda>p q. winRate p \<ge> winRate q) final"
proof -
  define st where
    "st = match_loop w \<lparr>player_stats = [], match_files = files, error_log = []\<rparr> (sort (remdups found))"
  define stats where "stats = player_stats st"
  define final where "final = player_stats_final stats"
  have t: "tallies stats cs" unfolding stats_def st_def cs_def by (rule player_stats_tallies)
  have keyed: "k = py_key (ps_id s)" if "(k, s) \<in> set stats" for k s
    using t that by (auto simp: tallies_def)
  have script: "ttbl_script w find_ids files =
          Inr (final, unique_players (all_players_of (match_files st) (sort (remdups found))), error_log st)"
    using g by (simp add: ttbl_script_def Let_def st_def stats_def final_def)
  have each: "gamesPlayed p = games_of (py_key (ps_id p)) cs
             \<and> wins p = wins_of (py_key (ps_id p)) cs
             \<and> losses p = losses_of (py_key (ps_id p)) cs
             \<and> 0 < gamesPlayed p
             \<and> wins p + losses p = gamesPlayed p
             \<and> winRate p = win_rate (wins p) (gamesPlayed p)
             \<and> 0 \<le> winRate p \<and> winRate p \<le> 100
             \<and> (gamesPlayed p < 2 ^ 45 \<longrightarrow>
                  floor_rate (wins p) (gamesPlayed p) - 1 \<le> winRate p
                \<and> winRate p \<le> floor_rate (wins p) (gamesPlayed p))" if pin: "p \<in> set final" for p
  proof -
    obtain k s where s: "(k, s) \<in> set stats" "p = with_win_rate s"
      using pin by (auto simp: final_def set_player_stats_final)
    have k: "k = py_key (ps_id s)" using keyed s(1) .
    have e: "gamesPlayed s = games_of k cs" "wins s = wins_of k cs" "losses s = losses_of k cs"
      "0 < games_of k cs"
      using tallies_entry [OF t s(1)] by simp_all
    have sum: "wins s + losses s = gamesPlayed s" using e tally_sum [of k cs] by simp
    then have le: "wins s \<le> gamesPlayed s" by simp
    have pos: "0 < gamesPlayed s" using e by simp
    have id: "ps_id p = ps_id s" by (simp add: s(2) with_win_rate_def)
    show ?thesis
      using e sum pos win_rate_bounds [OF le pos] win_rate_floor_rate [OF le pos]
      by (simp add: s(2) with_win_rate_fields id [unfolded s(2)] k [symmetric])
  qed
  have all: "\<exists>p \<in> set final. py_key (ps_id p) = k" if gk: "0 < games_of k cs" for k
  proof -
    obtain s where s: "(k, s) \<in> set stats" using tallies_complete [OF t gk] ..
    have "with_win_rate s \<in> set final" using s by (force simp: final_def set_player_stats_final)
    moreover have "py_key (ps_id (with_win_rate s)) = k"
      using keyed [OF s] by (simp add: with_win_rate_def)
    ultimately show ?thesis ..
  qed
  have dist: "distinct (map (\<lambda>p. py_key (ps_id p)) final)"
  proof -
    have "map (\<lambda>p. py_key (ps_id p)) (map (\<lambda>(k, s). with_win_rate s) stats) = map fst stats"
      using keyed by (auto simp: with_win_rate_def)
    moreover have "distinct (map fst stats)" using t by (simp add: tallies_def)
    ultimately have "distinct (map (\<lambda>p. py_key (ps_id p)) (map (\<lambda>(k, s). with_win_rate s) stats))"
      by (simp only:)
    then show ?thesis unfolding final_def player_stats_final_def
      by (simp only: distinct_map distinct_sort set_sort)
  qed
  have "sorted_wrt (\<lambda>p q. winRate p \<ge> winRate q) final"
    unfolding final_def by (rule sorted_player_stats_final)
  then show ?thesis using script each all dist by blast
qed

text \<open>On the example with a game that is not finished and an entry that is not a game
  object: the unfinished game and the games behind the broken entry are not counted, both
  players have six games from two matches, and the away player, entered second, comes
  first in the list.\<close>

lemma mixed_games_example:
  "ttbl_script mixed_games_world example_find_ids [] =
     Inr ([\<lparr>ps_id = PStr ''p2'', ps_name = ''Dang Qiu'', gamesPlayed = 6, wins = 4, losses = 2,
             lastMatch = ''m2'', winRate = 66\<rparr>,
           \<lparr>ps_id = PStr ''p1'', ps_name = ''Timo Boll'', gamesPlayed = 6, wins = 2, losses = 4,
             lastMatch = ''m2'', winRate = 33\<rparr>],
          [], [(''m1'', AttributeError)])"
  "concat (map (match_credits mixed_games_world) [''m1'', ''m2'']) =
     [(PStr ''p1'', False), (PStr ''p2'', True), (PStr ''p1'', False), (PStr ''p2'', True),
      (PStr ''p1'', True), (PStr ''p2'', False),
      (PStr ''p1'', True), (PStr ''p2'', False), (PStr ''p1'', False), (PStr ''p2'', True),
      (PStr ''p1'', False), (PStr ''p2'', True)]"
  "floor_rate 4 6 = 66" "floor_rate 2 6 = 33"
  by code_simp+

text \<open>
  \<^bold>\<open>Claim C9.\<close> For every record written to \<^verbatim>\<open>player_stats_final.json\<close>: wins and losses add
  up to the games played (every finished game with a player identifier adds one to the
  games played and one to either the wins or the losses), the win rate is
  \<open>\<lfloor>100 * wins / gamesPlayed\<rfloor>\<close> and lies between 0 and 100, and the list is sorted by win
  rate, highest first.

  The script computes the rate as \<^verbatim>\<open>int(wins / gamesPlayed * 100)\<close> in floating point. On a
  match of fifty finished games between two players, 29 won by the home player, the quotient
  29 / 50 rounds to a double just below 0.58, the product with 100 to 57.99999999999999,
  and the record of the home player is written with win rate 57, where
  \<open>\<lfloor>100 * 29 / 50\<rfloor> = 58\<close>. The record of the away player has the exact rate, 42.
\<close>

theorem win_rate_29_of_50:
  "ttbl_script fifty_games_world example_find_ids [] =
     Inr ([\<lparr>ps_id = PStr ''p1'', ps_name = ''Timo Boll'', gamesPlayed = 50, wins = 29, losses = 21,
             lastMatch = ''m1'', winRate = 57\<rparr>,
           \<lparr>ps_id = PStr ''p2'', ps_name = ''Dang Qiu'', gamesPlayed = 50, wins = 21, losses = 29,
             lastMatch = ''m1'', winRate = 42\<rparr>],
          [], [(''m2'', URLError)])
   \<and> floor_rate 29 50 = 58 \<and> floor_rate 21 50 = 42"
  by code_simp

section \<open>Player discovery from matches\<close>

lemma discover_fields_raises:
  "discover_fields m [''player_a'', ''player_x'', ''player_y''] ids = Inl AttributeError"
  by (simp add: discover_field_def match_getattr_def bind_err_def)

lemma discover_matches_raises: "discover_matches (m # ms) ids = Inl AttributeError"
  by (simp add: discover_fields_raises del: discover_fields.simps)

lemma discover_matches_returns: "discover_matches ms ids = Inr ids' \<Longrightarrow> ms = [] \<and> ids' = ids"
  by (cases ms) (simp_all add: discover_matches_raises del: discover_matches.simps(2))

lemma discover_years_returns:
  "discover_years srv reqs yrs ids = Inr (ids', reqs') \<Longrightarrow> ids' = ids"
proof (induction yrs arbitrary: reqs ids)
  case Nil
  then show ?case by simp
next
  case (Cons yr yrs)
  then show ?case
    by (auto split: sum.splits prod.splits dest: discover_matches_returns simp del: discover_matches.simps(2))
qed

lemma discover_years_unfold:
  "discover_years srv reqs (yr # yrs) ids =
     (case scrape_matches_by_year srv reqs yr 200 of
        Inl e \<Rightarrow> Inl e
      | Inr ([], reqs') \<Rightarrow> discover_years srv reqs' yrs ids
      | Inr (m # ms, reqs') \<Rightarrow> Inl AttributeError)"
  by (simp add: discover_matches_raises split: sum.splits prod.splits list.splits
      del: discover_matches.simps(2))



end
